theory Spec2Isabelle
  imports Main "HOL-Library.Word" "HOL-Library.Char_ord" "HOL-Library.List_Lexorder"
    "HOL-Library.AList"
begin

section \<open>Go strings and the helpers of package strings\<close>

text \<open>
  A Go string is a sequence of bytes, so it is modelled by \<^typ>\<open>string\<close>, a list of
  8-bit characters. Bytes are compared through the order of \<open>Char_ord\<close> (their numeric
  values) and strings through the lexicographic order of \<open>List_Lexorder\<close>, which is Go's
  comparison of strings.
\<close>

text \<open>\<^verbatim>\<open>strings.Cut(s, sep)\<close> for a separator of one byte.\<close>

definition strings_Cut :: "string \<Rightarrow> char \<Rightarrow> string \<times> string \<times> bool" where
  "strings_Cut s sep =
     (takeWhile (\<lambda>c. c \<noteq> sep) s, drop 1 (dropWhile (\<lambda>c. c \<noteq> sep) s), sep \<in> set s)"

text \<open>\<^verbatim>\<open>strings.Index(s, sub)\<close>: the first position where \<open>sub\<close> starts, if any.\<close>

fun strings_Index :: "string \<Rightarrow> string \<Rightarrow> nat option" where
  "strings_Index [] sub = (if sub = [] then Some 0 else None)"
| "strings_Index (c # cs) sub =
     (if take (length sub) (c # cs) = sub then Some 0
      else map_option Suc (strings_Index cs sub))"

text \<open>\<^verbatim>\<open>strings.LastIndex(s, sep)\<close> for a separator of one byte.\<close>

definition strings_LastIndex :: "string \<Rightarrow> char \<Rightarrow> nat option" where
  "strings_LastIndex s sep =
     (if sep \<in> set s
      then Some (length s - Suc (length (takeWhile (\<lambda>c. c \<noteq> sep) (rev s))))
      else None)"

definition isLower :: "char \<Rightarrow> bool" where
  "isLower c \<longleftrightarrow> CHR ''a'' \<le> c \<and> c \<le> CHR ''z''"

definition isUpper :: "char \<Rightarrow> bool" where
  "isUpper c \<longleftrightarrow> CHR ''A'' \<le> c \<and> c \<le> CHR ''Z''"

definition isDigit :: "char \<Rightarrow> bool" where
  "isDigit c \<longleftrightarrow> CHR ''0'' \<le> c \<and> c \<le> CHR ''9''"

text \<open>
  \<^verbatim>\<open>strings.ToLower\<close> on a string of ASCII bytes only (its fast path), which is how
  \<^verbatim>\<open>url.Parse\<close> uses it on a scheme.
\<close>

definition asciiLower :: "char \<Rightarrow> char" where
  "asciiLower c = (if isUpper c then char_of (of_char c + (32::nat)) else c)"

section \<open>Package net/url\<close>

text \<open>
  The program builds its link with \<^verbatim>\<open>url.Parse\<close>, \<^verbatim>\<open>URL.Query\<close>, \<^verbatim>\<open>Values.Set\<close>,
  \<^verbatim>\<open>Values.Encode\<close> and \<^verbatim>\<open>URL.String\<close> of Go's standard library. These definitions
  follow the functions of \<^verbatim>\<open>net/url/url.go\<close> of Go 1.24 (the toolchain the repository's
  Dockerfile builds with), one definition per Go function, with the Go names.
\<close>

datatype url_error =
    InvalidControlCharacter
  | EmptyURL
  | MissingProtocolScheme
  | InvalidURIForRequest
  | FirstPathSegmentColon
  | EscapeError string
  | InvalidHostError string
  | MissingBracketInHost
  | InvalidPort string
  | InvalidUserinfo
  | InvalidSemicolonSeparator

datatype encoding =
    encodePath
  | encodePathSegment
  | encodeHost
  | encodeZone
  | encodeUserPassword
  | encodeQueryComponent
  | encodeFragment

definition ishex :: "char \<Rightarrow> bool" where
  "ishex c \<longleftrightarrow> isDigit c \<or> (CHR ''a'' \<le> c \<and> c \<le> CHR ''f'') \<or> (CHR ''A'' \<le> c \<and> c \<le> CHR ''F'')"

text \<open>\<^verbatim>\<open>unhex\<close> panics on a byte that is not a hex digit; every caller checks \<open>ishex\<close> first.\<close>

definition unhex :: "char \<Rightarrow> nat" where
  "unhex c =
     (if isDigit c then of_char c - of_char CHR ''0''
      else if CHR ''a'' \<le> c \<and> c \<le> CHR ''f'' then of_char c - of_char CHR ''a'' + 10
      else if CHR ''A'' \<le> c \<and> c \<le> CHR ''F'' then of_char c - of_char CHR ''A'' + 10
      else 0)"

definition upperhex :: string where
  "upperhex = ''0123456789ABCDEF''"

definition shouldEscape :: "char \<Rightarrow> encoding \<Rightarrow> bool" where
  "shouldEscape c mode =
     (if isLower c \<or> isUpper c \<or> isDigit c then False
      else if (mode = encodeHost \<or> mode = encodeZone) \<and> c \<in> set ''!$&'()*+,;=:[]<>\"'' then False
      else if c \<in> set ''-_.~'' then False
      else if c \<in> set ''$&+,/:;=?@'' then
        (case mode of
           encodePath \<Rightarrow> c = CHR ''?''
         | encodePathSegment \<Rightarrow> c = CHR ''/'' \<or> c = CHR '';'' \<or> c = CHR '','' \<or> c = CHR ''?''
         | encodeUserPassword \<Rightarrow> c = CHR ''@'' \<or> c = CHR ''/'' \<or> c = CHR ''?'' \<or> c = CHR '':''
         | encodeQueryComponent \<Rightarrow> True
         | encodeFragment \<Rightarrow> False
         | _ \<Rightarrow> True)
      else if mode = encodeFragment \<and> c \<in> set ''!()*'' then False
      else True)"

text \<open>
  \<^verbatim>\<open>unescape\<close>. Go checks the whole string in a first loop and decodes it in a second
  one; the first error from the left is the one returned, so one pass from the left
  gives the same result.
\<close>

fun unescape :: "string \<Rightarrow> encoding \<Rightarrow> url_error + string" where
  "unescape [] mode = Inr []"
| "unescape (c # cs) mode =
     (if c = CHR ''%'' then
        (case cs of
           a # b # rest \<Rightarrow>
             if \<not> ishex a \<or> \<not> ishex b then Inl (EscapeError (take 3 (c # cs)))
             else if mode = encodeHost \<and> unhex a < 8 \<and> [c, a, b] \<noteq> ''%25''
               then Inl (EscapeError [c, a, b])
             else if mode = encodeZone \<and> [c, a, b] \<noteq> ''%25''
                 \<and> char_of (unhex a * 16 + unhex b) \<noteq> CHR '' ''
                 \<and> shouldEscape (char_of (unhex a * 16 + unhex b)) encodeHost
               then Inl (EscapeError [c, a, b])
             else map_sum id ((#) (char_of (unhex a * 16 + unhex b))) (unescape rest mode)
         | _ \<Rightarrow> Inl (EscapeError (take 3 (c # cs))))
      else if c = CHR ''+'' then
        map_sum id ((#) (if mode = encodeQueryComponent then CHR '' '' else CHR ''+''))
          (unescape cs mode)
      else if (mode = encodeHost \<or> mode = encodeZone) \<and> of_char c < (128::nat)
          \<and> shouldEscape c encodeHost
        then Inl (InvalidHostError [c])
      else map_sum id ((#) c) (unescape cs mode))"

fun escape :: "string \<Rightarrow> encoding \<Rightarrow> string" where
  "escape [] mode = []"
| "escape (c # cs) mode =
     (if c = CHR '' '' \<and> mode = encodeQueryComponent then CHR ''+'' # escape cs mode
      else if shouldEscape c mode then
        CHR ''%'' # upperhex ! (of_char c div 16) # upperhex ! (of_char c mod 16) # escape cs mode
      else c # escape cs mode)"

definition QueryUnescape :: "string \<Rightarrow> url_error + string" where
  "QueryUnescape s = unescape s encodeQueryComponent"

definition QueryEscape :: "string \<Rightarrow> string" where
  "QueryEscape s = escape s encodeQueryComponent"

definition validEncoded :: "string \<Rightarrow> encoding \<Rightarrow> bool" where
  "validEncoded s mode =
     list_all (\<lambda>c. c \<in> set ''!$&'()*+,;=:@[]%'' \<or> \<not> shouldEscape c mode) s"

definition stringContainsCTLByte :: "string \<Rightarrow> bool" where
  "stringContainsCTLByte s = list_ex (\<lambda>b. b < CHR '' '' \<or> b = CHR 0x7F) s"

text \<open>
  \<^verbatim>\<open>getScheme\<close>: the loop over the index \<open>i\<close>, with the bytes before \<open>i\<close> kept in \<open>pre\<close>
  (so \<open>i = 0\<close> is \<open>pre = []\<close>).
\<close>

fun getScheme_loop :: "string \<Rightarrow> string \<Rightarrow> string \<Rightarrow> url_error + (string \<times> string)" where
  "getScheme_loop rawURL pre [] = Inr ([], rawURL)"
| "getScheme_loop rawURL pre (c # cs) =
     (if isLower c \<or> isUpper c then getScheme_loop rawURL (pre @ [c]) cs
      else if isDigit c \<or> c = CHR ''+'' \<or> c = CHR ''-'' \<or> c = CHR ''.'' then
        (if pre = [] then Inr ([], rawURL) else getScheme_loop rawURL (pre @ [c]) cs)
      else if c = CHR '':'' then
        (if pre = [] then Inl MissingProtocolScheme else Inr (pre, cs))
      else Inr ([], rawURL))"

definition getScheme :: "string \<Rightarrow> url_error + (string \<times> string)" where
  "getScheme rawURL = getScheme_loop rawURL [] rawURL"

definition validOptionalPort :: "string \<Rightarrow> bool" where
  "validOptionalPort port =
     (case port of
        [] \<Rightarrow> True
      | c # ds \<Rightarrow> c = CHR '':'' \<and> list_all isDigit ds)"

definition parseHost :: "string \<Rightarrow> url_error + string" where
  "parseHost host =
     (if take 1 host = ''['' then
        (case strings_LastIndex host CHR '']'' of
           None \<Rightarrow> Inl MissingBracketInHost
         | Some i \<Rightarrow>
             if \<not> validOptionalPort (drop (i + 1) host) then Inl (InvalidPort (drop (i + 1) host))
             else
               (case strings_Index (take i host) ''%25'' of
                  Some zone \<Rightarrow>
                    (case unescape (take zone host) encodeHost of
                       Inl e \<Rightarrow> Inl e
                     | Inr host1 \<Rightarrow>
                        (case unescape (drop zone (take i host)) encodeZone of
                           Inl e \<Rightarrow> Inl e
                         | Inr host2 \<Rightarrow>
                            (case unescape (drop i host) encodeHost of
                               Inl e \<Rightarrow> Inl e
                             | Inr host3 \<Rightarrow> Inr (host1 @ host2 @ host3))))
                | None \<Rightarrow> unescape host encodeHost))
      else
        (case strings_LastIndex host CHR '':'' of
           Some i \<Rightarrow>
             if \<not> validOptionalPort (drop i host) then Inl (InvalidPort (drop i host))
             else unescape host encodeHost
         | None \<Rightarrow> unescape host encodeHost))"

record Userinfo =
  username :: string
  password :: string
  passwordSet :: bool

definition validUserinfo :: "string \<Rightarrow> bool" where
  "validUserinfo s =
     list_all (\<lambda>r. isUpper r \<or> isLower r \<or> isDigit r \<or> r \<in> set ''-._:~!$&'()*+,;=%@'') s"

definition parseAuthority :: "string \<Rightarrow> url_error + (Userinfo option \<times> string)" where
  "parseAuthority authority =
     (let i = strings_LastIndex authority CHR ''@'' in
      case (case i of None \<Rightarrow> parseHost authority
                    | Some j \<Rightarrow> parseHost (drop (j + 1) authority)) of
        Inl e \<Rightarrow> Inl e
      | Inr host \<Rightarrow>
         (case i of
            None \<Rightarrow> Inr (None, host)
          | Some j \<Rightarrow>
             let userinfo = take j authority in
             if \<not> validUserinfo userinfo then Inl InvalidUserinfo
             else if CHR '':'' \<notin> set userinfo then
               (case unescape userinfo encodeUserPassword of
                  Inl e \<Rightarrow> Inl e
                | Inr u \<Rightarrow> Inr (Some \<lparr>username = u, password = [], passwordSet = False\<rparr>, host))
             else
               (case strings_Cut userinfo CHR '':'' of
                  (uname, pw, _) \<Rightarrow>
                    (case unescape uname encodeUserPassword of
                       Inl e \<Rightarrow> Inl e
                     | Inr u \<Rightarrow>
                        (case unescape pw encodeUserPassword of
                           Inl e \<Rightarrow> Inl e
                         | Inr p \<Rightarrow>
                             Inr (Some \<lparr>username = u, password = p, passwordSet = True\<rparr>, host))))))"

record URL =
  Scheme :: string
  Opaque :: string
  User :: "Userinfo option"
  Host :: string
  Path :: string
  RawPath :: string
  OmitHost :: bool
  ForceQuery :: bool
  RawQuery :: string
  Fragment :: string
  RawFragment :: string

definition emptyURL :: URL where
  "emptyURL = \<lparr>Scheme = [], Opaque = [], User = None, Host = [], Path = [], RawPath = [],
     OmitHost = False, ForceQuery = False, RawQuery = [], Fragment = [], RawFragment = []\<rparr>"

definition setPath :: "URL \<Rightarrow> string \<Rightarrow> url_error + URL" where
  "setPath u p =
     (case unescape p encodePath of
        Inl e \<Rightarrow> Inl e
      | Inr path \<Rightarrow>
          Inr (u\<lparr>Path := path, RawPath := (if p = escape path encodePath then [] else p)\<rparr>))"

definition setFragment :: "URL \<Rightarrow> string \<Rightarrow> url_error + URL" where
  "setFragment u f =
     (case unescape f encodeFragment of
        Inl e \<Rightarrow> Inl e
      | Inr frag \<Rightarrow>
          Inr (u\<lparr>Fragment := frag,
                 RawFragment := (if f = escape frag encodeFragment then [] else f)\<rparr>))"

text \<open>
  \<^verbatim>\<open>parse(rawURL, viaRequest)\<close>, the URL without its fragment, in two parts. The second
  part, \<open>parseAfterQuery\<close>, is the function from the test
  \<^verbatim>\<open>!strings.HasPrefix(rest, "/")\<close> to its end: \<open>url\<close> holds the scheme and the query
  found so far and \<open>rest\<close> is what stands between them.
\<close>

definition parseAfterQuery :: "URL \<Rightarrow> string \<Rightarrow> bool \<Rightarrow> url_error + URL" where
  "parseAfterQuery url rest viaRequest =
     (if take 1 rest \<noteq> ''/'' \<and> Scheme url \<noteq> [] then Inr (url\<lparr>Opaque := rest\<rparr>)
      else if take 1 rest \<noteq> ''/'' \<and> viaRequest then Inl InvalidURIForRequest
      else if take 1 rest \<noteq> ''/'' \<and> CHR '':'' \<in> set (fst (strings_Cut rest CHR ''/''))
        then Inl FirstPathSegmentColon
      else if (Scheme url \<noteq> [] \<or> \<not> viaRequest \<and> take 3 rest \<noteq> ''///'')
          \<and> take 2 rest = ''//'' then
        (let authority = fst (strings_Cut (drop 2 rest) CHR ''/'');
             rest' = dropWhile (\<lambda>c. c \<noteq> CHR ''/'') (drop 2 rest)
         in case parseAuthority authority of
              Inl e \<Rightarrow> Inl e
            | Inr (user, host) \<Rightarrow> setPath (url\<lparr>User := user, Host := host\<rparr>) rest')
      else if Scheme url \<noteq> [] \<and> take 1 rest = ''/'' then
        setPath (url\<lparr>OmitHost := True\<rparr>) rest
      else setPath url rest)"

definition parse :: "string \<Rightarrow> bool \<Rightarrow> url_error + URL" where
  "parse rawURL viaRequest =
     (if stringContainsCTLByte rawURL then Inl InvalidControlCharacter
      else if rawURL = [] \<and> viaRequest then Inl EmptyURL
      else if rawURL = ''*'' then Inr (emptyURL\<lparr>Path := ''*''\<rparr>)
      else
        (case getScheme rawURL of
           Inl e \<Rightarrow> Inl e
         | Inr (scheme, rest) \<Rightarrow>
            if rest \<noteq> [] \<and> last rest = CHR ''?'' \<and> count_list rest CHR ''?'' = 1 then
              parseAfterQuery (emptyURL\<lparr>Scheme := map asciiLower scheme, ForceQuery := True\<rparr>)
                (butlast rest) viaRequest
            else
              parseAfterQuery
                (emptyURL\<lparr>Scheme := map asciiLower scheme,
                           RawQuery := fst (snd (strings_Cut rest CHR ''?''))\<rparr>)
                (fst (strings_Cut rest CHR ''?'')) viaRequest))"

text \<open>\<^verbatim>\<open>url.Parse\<close>: cut the fragment off, parse the rest, then set the fragment.\<close>

definition Parse :: "string \<Rightarrow> url_error + URL" where
  "Parse rawURL =
     (case strings_Cut rawURL CHR ''#'' of
        (u, frag, _) \<Rightarrow>
          (case parse u False of
             Inl e \<Rightarrow> Inl e
           | Inr url \<Rightarrow> if frag = [] then Inr url else setFragment url frag))"

definition EscapedPath :: "URL \<Rightarrow> string" where
  "EscapedPath u =
     (if RawPath u \<noteq> [] \<and> validEncoded (RawPath u) encodePath
         \<and> unescape (RawPath u) encodePath = Inr (Path u)
      then RawPath u
      else if Path u = ''*'' then ''*''
      else escape (Path u) encodePath)"

definition EscapedFragment :: "URL \<Rightarrow> string" where
  "EscapedFragment u =
     (if RawFragment u \<noteq> [] \<and> validEncoded (RawFragment u) encodeFragment
         \<and> unescape (RawFragment u) encodeFragment = Inr (Fragment u)
      then RawFragment u
      else escape (Fragment u) encodeFragment)"

definition Userinfo_String :: "Userinfo \<Rightarrow> string" where
  "Userinfo_String ui =
     escape (username ui) encodeUserPassword
       @ (if passwordSet ui then '':'' @ escape (password ui) encodeUserPassword else [])"

text \<open>\<^verbatim>\<open>URL.String\<close>; \<open>buf\<close> is the builder's content at each point of the Go function.\<close>

definition URL_String :: "URL \<Rightarrow> string" where
  "URL_String u =
     (let buf1 = (if Scheme u \<noteq> [] then Scheme u @ '':'' else []);
          buf2 =
            (if Opaque u \<noteq> [] then buf1 @ Opaque u
             else
               (let buf3 =
                      (if Scheme u \<noteq> [] \<or> Host u \<noteq> [] \<or> User u \<noteq> None then
                         (if OmitHost u \<and> Host u = [] \<and> User u = None then buf1
                          else
                            buf1
                            @ (if Host u \<noteq> [] \<or> Path u \<noteq> [] \<or> User u \<noteq> None then ''//'' else [])
                            @ (case User u of None \<Rightarrow> [] | Some ui \<Rightarrow> Userinfo_String ui @ ''@'')
                            @ (if Host u \<noteq> [] then escape (Host u) encodeHost else []))
                       else buf1);
                    path = EscapedPath u;
                    buf4 = (if path \<noteq> [] \<and> hd path \<noteq> CHR ''/'' \<and> Host u \<noteq> [] then buf3 @ ''/''
                            else buf3);
                    buf5 = (if buf4 = [] \<and> CHR '':'' \<in> set (fst (strings_Cut path CHR ''/''))
                            then buf4 @ ''./'' else buf4)
                in buf5 @ path));
          buf6 = (if ForceQuery u \<or> RawQuery u \<noteq> [] then buf2 @ ''?'' @ RawQuery u else buf2)
      in if Fragment u \<noteq> [] then buf6 @ ''#'' @ EscapedFragment u else buf6)"

subsection \<open>Query values\<close>

text \<open>
  \<^verbatim>\<open>url.Values\<close> is \<^verbatim>\<open>map[string][]string\<close>. It is modelled by an association list
  with one entry per key; \<^verbatim>\<open>Encode\<close> sorts the keys, so the order of the entries never
  shows.
\<close>

type_synonym Values = "(string \<times> string list) list"

definition Values_Get :: "Values \<Rightarrow> string \<Rightarrow> string list" where
  "Values_Get v k = (case map_of v k of None \<Rightarrow> [] | Some vs \<Rightarrow> vs)"

text \<open>\<^verbatim>\<open>v.Set(key, value)\<close>: \<^verbatim>\<open>v[key] = []string{value}\<close>.\<close>

definition Values_Set :: "Values \<Rightarrow> string \<Rightarrow> string \<Rightarrow> Values" where
  "Values_Set v k x = AList.update k [x] v"

text \<open>The statement \<^verbatim>\<open>m[key] = append(m[key], value)\<close> of \<^verbatim>\<open>parseQuery\<close>.\<close>

definition Values_append :: "Values \<Rightarrow> string \<Rightarrow> string \<Rightarrow> Values" where
  "Values_append m k x = AList.update k (Values_Get m k @ [x]) m"

text \<open>
  \<^verbatim>\<open>parseQuery(m, query)\<close>: the loop \<^verbatim>\<open>for query != ""\<close>, which cuts one pair off at each
  \<open>&\<close>. A pair with a semicolon or a bad escape is skipped and the first such error is
  kept in \<open>err\<close>.
\<close>

lemma strings_Cut_shorter: "s \<noteq> [] \<Longrightarrow> length (fst (snd (strings_Cut s sep))) < length s"
proof -
  assume "s \<noteq> []"
  then have "0 < length s"
    by simp
  moreover have "length (dropWhile (\<lambda>c. c \<noteq> sep) s) \<le> length s"
    by (rule length_dropWhile_le)
  ultimately show ?thesis
    unfolding strings_Cut_def fst_conv snd_conv length_drop by linarith
qed

function parseQuery :: "Values \<Rightarrow> string \<Rightarrow> url_error option \<Rightarrow> Values \<times> url_error option" where
  "parseQuery m query err =
     (if query = [] then (m, err)
      else
        (let key = fst (strings_Cut query CHR ''&'');
             query' = fst (snd (strings_Cut query CHR ''&''))
         in if CHR '';'' \<in> set key then parseQuery m query' (Some InvalidSemicolonSeparator)
            else if key = [] then parseQuery m query' err
            else
              (case QueryUnescape (fst (strings_Cut key CHR ''='')) of
                 Inl err1 \<Rightarrow> parseQuery m query' (if err = None then Some err1 else err)
               | Inr k \<Rightarrow>
                  (case QueryUnescape (fst (snd (strings_Cut key CHR ''=''))) of
                     Inl err1 \<Rightarrow> parseQuery m query' (if err = None then Some err1 else err)
                   | Inr x \<Rightarrow> parseQuery (Values_append m k x) query' err))))"
  by pat_completeness auto
termination
  by (relation "measure (\<lambda>(m, query, err). length query)")
     (simp_all add: strings_Cut_shorter)

declare parseQuery.simps [simp del]

definition ParseQuery :: "string \<Rightarrow> Values \<times> url_error option" where
  "ParseQuery query = parseQuery [] query None"

text \<open>\<^verbatim>\<open>u.Query()\<close> drops the error of \<^verbatim>\<open>ParseQuery\<close>.\<close>

definition URL_Query :: "URL \<Rightarrow> Values" where
  "URL_Query u = fst (ParseQuery (RawQuery u))"

text \<open>
  \<^verbatim>\<open>v.Encode()\<close>: the keys in sorted order, and for each key its values in their order;
  \<open>buf\<close> is the builder.
\<close>

fun Encode_values :: "string \<Rightarrow> string list \<Rightarrow> string \<Rightarrow> string" where
  "Encode_values keyEscaped [] buf = buf"
| "Encode_values keyEscaped (x # xs) buf =
     Encode_values keyEscaped xs
       ((if buf \<noteq> [] then buf @ ''&'' else buf) @ keyEscaped @ ''='' @ QueryEscape x)"

fun Encode_keys :: "Values \<Rightarrow> string list \<Rightarrow> string \<Rightarrow> string" where
  "Encode_keys v [] buf = buf"
| "Encode_keys v (k # ks) buf =
     Encode_keys v ks (Encode_values (QueryEscape k) (Values_Get v k) buf)"

definition Values_Encode :: "Values \<Rightarrow> string" where
  "Values_Encode v = (if v = [] then [] else Encode_keys v (sort (map fst v)) [])"

section \<open>Packages unicode/utf8, unicode and strings\<close>

unbundle bit_operations_syntax

type_synonym rune = int

definition RuneError :: rune where
  "RuneError = 0xFFFD"

definition MaxRune :: rune where
  "MaxRune = 0x10FFFF"

text \<open>
  \<^verbatim>\<open>utf8.DecodeRuneInString\<close> on a string that is not empty: the rune and its width in
  bytes. The masks \<^verbatim>\<open>s0&mask2\<close>, \<^verbatim>\<open>s0&mask3\<close>, \<^verbatim>\<open>s0&mask4\<close> and \<^verbatim>\<open>s&maskx\<close> are the
  remainders modulo 32, 16, 8 and 64. The table \<^verbatim>\<open>first\<close> gives, for the first byte, the
  size and the range accepted for the second byte.
\<close>

definition acceptRange :: "nat \<Rightarrow> nat \<times> nat" where
  "acceptRange s0 =
     (if s0 = 0xE0 then (0xA0, 0xBF)
      else if s0 = 0xED then (0x80, 0x9F)
      else if s0 = 0xF0 then (0x90, 0xBF)
      else if s0 = 0xF4 then (0x80, 0x8F)
      else (0x80, 0xBF))"

definition runeSize :: "nat \<Rightarrow> nat" where
  "runeSize s0 =
     (if s0 < 0x80 then 1
      else if s0 < 0xC2 then 0
      else if s0 < 0xE0 then 2
      else if s0 < 0xF0 then 3
      else if s0 < 0xF5 then 4
      else 0)"

definition iscb :: "nat \<Rightarrow> bool" where
  "iscb b \<longleftrightarrow> 0x80 \<le> b \<and> b \<le> 0xBF"

definition DecodeRuneInString :: "string \<Rightarrow> rune \<times> nat" where
  "DecodeRuneInString s =
     (let n = length s; s0 = (of_char (s ! 0) :: nat); sz = runeSize s0 in
      if sz = 1 then (int s0, 1)
      else if sz = 0 then (RuneError, 1)
      else if n < sz then (RuneError, 1)
      else
        (let s1 = (of_char (s ! 1) :: nat) in
         if s1 < fst (acceptRange s0) \<or> snd (acceptRange s0) < s1 then (RuneError, 1)
         else if sz \<le> 2 then (int ((s0 mod 32) * 64 + s1 mod 64), 2)
         else
           (let s2 = (of_char (s ! 2) :: nat) in
            if \<not> iscb s2 then (RuneError, 1)
            else if sz \<le> 3 then (int ((s0 mod 16) * 4096 + (s1 mod 64) * 64 + s2 mod 64), 3)
            else
              (let s3 = (of_char (s ! 3) :: nat) in
               if \<not> iscb s3 then (RuneError, 1)
               else (int ((s0 mod 8) * 262144 + (s1 mod 64) * 4096 + (s2 mod 64) * 64
                            + s3 mod 64), 4)))))"

lemma DecodeRuneInString_width: "0 < snd (DecodeRuneInString s)"
  by (simp add: DecodeRuneInString_def Let_def)

lemma DecodeRuneInString_shorter:
  "s \<noteq> [] \<Longrightarrow> length s - snd (DecodeRuneInString s) < length s"
  using DecodeRuneInString_width [of s] by (cases s) simp_all

text \<open>The runes of a \<^verbatim>\<open>for _, r := range s\<close> loop.\<close>

function stringRunes :: "string \<Rightarrow> rune list" where
  "stringRunes s =
     (if s = [] then []
      else fst (DecodeRuneInString s) # stringRunes (drop (snd (DecodeRuneInString s)) s))"
  by pat_completeness auto
termination
  by (relation "measure length") (simp_all add: DecodeRuneInString_shorter)

declare stringRunes.simps [simp del]

text \<open>
  \<^verbatim>\<open>utf8.AppendRune\<close>, which \<^verbatim>\<open>Builder.WriteRune\<close> calls: a surrogate or a value out of
  range is written as \<^verbatim>\<open>RuneError\<close>.
\<close>

definition encode3 :: "rune \<Rightarrow> string" where
  "encode3 r =
     [char_of (0xE0 + r div 4096), char_of (0x80 + (r div 64) mod 64), char_of (0x80 + r mod 64)]"

definition AppendRune :: "rune \<Rightarrow> string" where
  "AppendRune r =
     (if 0 \<le> r \<and> r \<le> 0x7F then [char_of r]
      else if 0 \<le> r \<and> r \<le> 0x7FF then [char_of (0xC0 + r div 64), char_of (0x80 + r mod 64)]
      else if r < 0 \<or> r > MaxRune \<or> (0xD800 \<le> r \<and> r \<le> 0xDFFF) then encode3 RuneError
      else if r \<le> 0xFFFF then encode3 r
      else [char_of (0xF0 + r div 262144), char_of (0x80 + (r div 4096) mod 64),
            char_of (0x80 + (r div 64) mod 64), char_of (0x80 + r mod 64)])"

subsection \<open>unicode.ToLower\<close>

text \<open>
  \<^verbatim>\<open>unicode.ToLower\<close> maps an ASCII rune directly and any other rune through the table
  \<^verbatim>\<open>unicode.CaseRanges\<close>. The table is not part of the repository. \<open>caseRanges\<close> holds
  its lower-case column: the simple lower-case mappings of the Unicode Character Database,
  in the form Go gives them, a range of runes with the difference to add, or a range
  \<^verbatim>\<open>UpperLower\<close> in which upper-case and lower-case letters alternate.
\<close>

datatype caseDelta = Delta int | UpperLower

type_synonym CaseRange = "rune \<times> rune \<times> caseDelta"

definition caseRanges :: "CaseRange list" where
  "caseRanges = [
    (0x0041, 0x005A, Delta 32), (0x00C0, 0x00D6, Delta 32), (0x00D8, 0x00DE, Delta 32),
    (0x0100, 0x012F, UpperLower), (0x0130, 0x0130, Delta (- 199)),
    (0x0132, 0x0137, UpperLower), (0x0139, 0x0148, UpperLower), (0x014A, 0x0177, UpperLower),
    (0x0178, 0x0178, Delta (- 121)), (0x0179, 0x017E, UpperLower), (0x0181, 0x0181, Delta 210),
    (0x0182, 0x0185, UpperLower), (0x0186, 0x0186, Delta 206), (0x0187, 0x0188, UpperLower),
    (0x0189, 0x018A, Delta 205), (0x018B, 0x018C, UpperLower), (0x018E, 0x018E, Delta 79),
    (0x018F, 0x018F, Delta 202), (0x0190, 0x0190, Delta 203), (0x0191, 0x0192, UpperLower),
    (0x0193, 0x0193, Delta 205), (0x0194, 0x0194, Delta 207), (0x0196, 0x0196, Delta 211),
    (0x0197, 0x0197, Delta 209), (0x0198, 0x0199, UpperLower), (0x019C, 0x019C, Delta 211),
    (0x019D, 0x019D, Delta 213), (0x019F, 0x019F, Delta 214), (0x01A0, 0x01A5, UpperLower),
    (0x01A6, 0x01A6, Delta 218), (0x01A7, 0x01A8, UpperLower), (0x01A9, 0x01A9, Delta 218),
    (0x01AC, 0x01AD, UpperLower), (0x01AE, 0x01AE, Delta 218), (0x01AF, 0x01B0, UpperLower),
    (0x01B1, 0x01B2, Delta 217), (0x01B3, 0x01B6, UpperLower), (0x01B7, 0x01B7, Delta 219),
    (0x01B8, 0x01B9, UpperLower), (0x01BC, 0x01BD, UpperLower), (0x01C4, 0x01C4, Delta 2),
    (0x01C5, 0x01C6, UpperLower), (0x01C7, 0x01C7, Delta 2), (0x01C8, 0x01C9, UpperLower),
    (0x01CA, 0x01CA, Delta 2), (0x01CB, 0x01DC, UpperLower), (0x01DE, 0x01EF, UpperLower),
    (0x01F1, 0x01F1, Delta 2), (0x01F2, 0x01F5, UpperLower), (0x01F6, 0x01F6, Delta (- 97)),
    (0x01F7, 0x01F7, Delta (- 56)), (0x01F8, 0x021F, UpperLower),
    (0x0220, 0x0220, Delta (- 130)), (0x0222, 0x0233, UpperLower),
    (0x023A, 0x023A, Delta 10795), (0x023B, 0x023C, UpperLower),
    (0x023D, 0x023D, Delta (- 163)), (0x023E, 0x023E, Delta 10792),
    (0x0241, 0x0242, UpperLower), (0x0243, 0x0243, Delta (- 195)), (0x0244, 0x0244, Delta 69),
    (0x0245, 0x0245, Delta 71), (0x0246, 0x024F, UpperLower), (0x0370, 0x0373, UpperLower),
    (0x0376, 0x0377, UpperLower), (0x037F, 0x037F, Delta 116), (0x0386, 0x0386, Delta 38),
    (0x0388, 0x038A, Delta 37), (0x038C, 0x038C, Delta 64), (0x038E, 0x038F, Delta 63),
    (0x0391, 0x03A1, Delta 32), (0x03A3, 0x03AB, Delta 32), (0x03CF, 0x03CF, Delta 8),
    (0x03D8, 0x03EF, UpperLower), (0x03F4, 0x03F4, Delta (- 60)), (0x03F7, 0x03F8, UpperLower),
    (0x03F9, 0x03F9, Delta (- 7)), (0x03FA, 0x03FB, UpperLower),
    (0x03FD, 0x03FF, Delta (- 130)), (0x0400, 0x040F, Delta 80), (0x0410, 0x042F, Delta 32),
    (0x0460, 0x0481, UpperLower), (0x048A, 0x04BF, UpperLower), (0x04C0, 0x04C0, Delta 15),
    (0x04C1, 0x04CE, UpperLower), (0x04D0, 0x052F, UpperLower), (0x0531, 0x0556, Delta 48),
    (0x10A0, 0x10C5, Delta 7264), (0x10C7, 0x10C7, Delta 7264), (0x10CD, 0x10CD, Delta 7264),
    (0x13A0, 0x13EF, Delta 38864), (0x13F0, 0x13F5, Delta 8), (0x1C90, 0x1CBA, Delta (- 3008)),
    (0x1CBD, 0x1CBF, Delta (- 3008)), (0x1E00, 0x1E95, UpperLower),
    (0x1E9E, 0x1E9E, Delta (- 7615)), (0x1EA0, 0x1EFF, UpperLower),
    (0x1F08, 0x1F0F, Delta (- 8)), (0x1F18, 0x1F1D, Delta (- 8)),
    (0x1F28, 0x1F2F, Delta (- 8)), (0x1F38, 0x1F3F, Delta (- 8)),
    (0x1F48, 0x1F4D, Delta (- 8)), (0x1F59, 0x1F59, Delta (- 8)),
    (0x1F5B, 0x1F5B, Delta (- 8)), (0x1F5D, 0x1F5D, Delta (- 8)),
    (0x1F5F, 0x1F5F, Delta (- 8)), (0x1F68, 0x1F6F, Delta (- 8)),
    (0x1F88, 0x1F8F, Delta (- 8)), (0x1F98, 0x1F9F, Delta (- 8)),
    (0x1FA8, 0x1FAF, Delta (- 8)), (0x1FB8, 0x1FB9, Delta (- 8)),
    (0x1FBA, 0x1FBB, Delta (- 74)), (0x1FBC, 0x1FBC, Delta (- 9)),
    (0x1FC8, 0x1FCB, Delta (- 86)), (0x1FCC, 0x1FCC, Delta (- 9)),
    (0x1FD8, 0x1FD9, Delta (- 8)), (0x1FDA, 0x1FDB, Delta (- 100)),
    (0x1FE8, 0x1FE9, Delta (- 8)), (0x1FEA, 0x1FEB, Delta (- 112)),
    (0x1FEC, 0x1FEC, Delta (- 7)), (0x1FF8, 0x1FF9, Delta (- 128)),
    (0x1FFA, 0x1FFB, Delta (- 126)), (0x1FFC, 0x1FFC, Delta (- 9)),
    (0x2126, 0x2126, Delta (- 7517)), (0x212A, 0x212A, Delta (- 8383)),
    (0x212B, 0x212B, Delta (- 8262)), (0x2132, 0x2132, Delta 28), (0x2160, 0x216F, Delta 16),
    (0x2183, 0x2184, UpperLower), (0x24B6, 0x24CF, Delta 26), (0x2C00, 0x2C2F, Delta 48),
    (0x2C60, 0x2C61, UpperLower), (0x2C62, 0x2C62, Delta (- 10743)),
    (0x2C63, 0x2C63, Delta (- 3814)), (0x2C64, 0x2C64, Delta (- 10727)),
    (0x2C67, 0x2C6C, UpperLower), (0x2C6D, 0x2C6D, Delta (- 10780)),
    (0x2C6E, 0x2C6E, Delta (- 10749)), (0x2C6F, 0x2C6F, Delta (- 10783)),
    (0x2C70, 0x2C70, Delta (- 10782)), (0x2C72, 0x2C73, UpperLower),
    (0x2C75, 0x2C76, UpperLower), (0x2C7E, 0x2C7F, Delta (- 10815)),
    (0x2C80, 0x2CE3, UpperLower), (0x2CEB, 0x2CEE, UpperLower), (0x2CF2, 0x2CF3, UpperLower),
    (0xA640, 0xA66D, UpperLower), (0xA680, 0xA69B, UpperLower), (0xA722, 0xA72F, UpperLower),
    (0xA732, 0xA76F, UpperLower), (0xA779, 0xA77C, UpperLower),
    (0xA77D, 0xA77D, Delta (- 35332)), (0xA77E, 0xA787, UpperLower),
    (0xA78B, 0xA78C, UpperLower), (0xA78D, 0xA78D, Delta (- 42280)),
    (0xA790, 0xA793, UpperLower), (0xA796, 0xA7A9, UpperLower),
    (0xA7AA, 0xA7AA, Delta (- 42308)), (0xA7AB, 0xA7AB, Delta (- 42319)),
    (0xA7AC, 0xA7AC, Delta (- 42315)), (0xA7AD, 0xA7AD, Delta (- 42305)),
    (0xA7AE, 0xA7AE, Delta (- 42308)), (0xA7B0, 0xA7B0, Delta (- 42258)),
    (0xA7B1, 0xA7B1, Delta (- 42282)), (0xA7B2, 0xA7B2, Delta (- 42261)),
    (0xA7B3, 0xA7B3, Delta 928), (0xA7B4, 0xA7C3, UpperLower), (0xA7C4, 0xA7C4, Delta (- 48)),
    (0xA7C5, 0xA7C5, Delta (- 42307)), (0xA7C6, 0xA7C6, Delta (- 35384)),
    (0xA7C7, 0xA7CA, UpperLower), (0xA7D0, 0xA7D1, UpperLower), (0xA7D6, 0xA7D9, UpperLower),
    (0xA7F5, 0xA7F6, UpperLower), (0xFF21, 0xFF3A, Delta 32), (0x10400, 0x10427, Delta 40),
    (0x104B0, 0x104D3, Delta 40), (0x10570, 0x1057A, Delta 39), (0x1057C, 0x1058A, Delta 39),
    (0x1058C, 0x10592, Delta 39), (0x10594, 0x10595, Delta 39), (0x10C80, 0x10CB2, Delta 64),
    (0x118A0, 0x118BF, Delta 32), (0x16E40, 0x16E5F, Delta 32), (0x1E900, 0x1E921, Delta 34)
  ]"

text \<open>
  \<^verbatim>\<open>unicode.to\<close> for the case \<^verbatim>\<open>LowerCase\<close>. Go finds the range by binary search; the
  ranges are disjoint, so the first range from the left that holds \<open>r\<close> is the same one.
\<close>

fun to_lower :: "CaseRange list \<Rightarrow> rune \<Rightarrow> rune" where
  "to_lower [] r = r"
| "to_lower ((lo, hi, d) # crs) r =
     (if lo \<le> r \<and> r \<le> hi then
        (case d of Delta k \<Rightarrow> r + k | UpperLower \<Rightarrow> lo + ((r - lo) OR 1))
      else to_lower crs r)"

definition unicode_ToLower :: "rune \<Rightarrow> rune" where
  "unicode_ToLower r =
     (if r \<le> 0x7F then (if 0x41 \<le> r \<and> r \<le> 0x5A then r + 32 else r)
      else to_lower caseRanges r)"

subsection \<open>strings.Map, strings.ToLower, strings.ReplaceAll\<close>

text \<open>The second loop of \<^verbatim>\<open>strings.Map\<close>: every rune is mapped and written.\<close>

definition Map_rest :: "(rune \<Rightarrow> rune) \<Rightarrow> string \<Rightarrow> string" where
  "Map_rest mapping s = concat (map (\<lambda>c. AppendRune (mapping c)) (stringRunes s))"

text \<open>
  \<^verbatim>\<open>strings.Map\<close> for a mapping that never returns a negative rune. The first loop keeps
  the bytes of the input as long as the runes do not change; an invalid byte (a
  \<^verbatim>\<open>RuneError\<close> of width 1) or a rune that changes ends it, and the second loop maps what is
  left. Here \<open>c\<close> is \<open>fst (DecodeRuneInString s)\<close> and \<open>width\<close> is
  \<open>snd (DecodeRuneInString s)\<close>.
\<close>

function strings_Map :: "(rune \<Rightarrow> rune) \<Rightarrow> string \<Rightarrow> string" where
  "strings_Map mapping s =
     (if s = [] then []
      else if mapping (fst (DecodeRuneInString s)) = fst (DecodeRuneInString s)
          \<and> (fst (DecodeRuneInString s) \<noteq> RuneError \<or> snd (DecodeRuneInString s) \<noteq> 1)
        then take (snd (DecodeRuneInString s)) s
               @ strings_Map mapping (drop (snd (DecodeRuneInString s)) s)
      else AppendRune (mapping (fst (DecodeRuneInString s)))
             @ Map_rest mapping (drop (snd (DecodeRuneInString s)) s))"
  by pat_completeness auto
termination
  by (relation "measure (\<lambda>(mapping, s). length s)") (simp_all add: DecodeRuneInString_shorter)

declare strings_Map.simps [simp del]

definition strings_ToLower :: "string \<Rightarrow> string" where
  "strings_ToLower s =
     (if list_all (\<lambda>c. of_char c < (0x80::nat)) s then
        (if \<not> list_ex isUpper s then s else map asciiLower s)
      else strings_Map unicode_ToLower s)"

text \<open>\<^verbatim>\<open>strings.ReplaceAll(s, old, new)\<close> for \<open>old\<close> and \<open>new\<close> of one byte each.\<close>

definition strings_ReplaceAll :: "string \<Rightarrow> char \<Rightarrow> char \<Rightarrow> string" where
  "strings_ReplaceAll s old new = map (\<lambda>c. if c = old then new else c) s"

section \<open>The program: main.go\<close>

subsection \<open>sanitizeUTMValue and replaceTurkishChars\<close>

text \<open>The map \<^verbatim>\<open>replacements\<close> of \<^verbatim>\<open>replaceTurkishChars\<close>, by code point.\<close>

definition replacements :: "(rune \<times> rune) list" where
  "replacements =
     [(0x15F, 0x73), (0x15E, 0x53), (0x131, 0x69), (0x130, 0x49), (0x11F, 0x67), (0x11E, 0x47),
      (0xFC, 0x75), (0xDC, 0x55), (0xF6, 0x6F), (0xD6, 0x4F), (0xE7, 0x63), (0xC7, 0x43)]"

definition replaceRune :: "rune \<Rightarrow> rune" where
  "replaceRune r = (case map_of replacements r of Some replacement \<Rightarrow> replacement | None \<Rightarrow> r)"

definition replaceTurkishChars :: "string \<Rightarrow> string" where
  "replaceTurkishChars s = concat (map (\<lambda>r. AppendRune (replaceRune r)) (stringRunes s))"

definition sanitizeUTMValue :: "string \<Rightarrow> string" where
  "sanitizeUTMValue v =
     replaceTurkishChars (strings_ToLower (strings_ReplaceAll v CHR '' '' CHR ''_''))"

definition isValidURL :: "string \<Rightarrow> bool" where
  "isValidURL text =
     (case Parse text of
        Inl err \<Rightarrow> False
      | Inr parsedURL \<Rightarrow> Scheme parsedURL = ''http'' \<or> Scheme parsedURL = ''https'')"

subsection \<open>Sessions and outbound messages\<close>

type_synonym int64 = "64 word"

record UserSession =
  Step :: int
  SourceURL :: string
  UTMSource :: string
  UTMMedium :: string
  Campaign :: string
  Content :: string
  Term :: string

text \<open>\<^verbatim>\<open>&UserSession{Step: 1}\<close>: every other field has Go's zero value, the empty string.\<close>

definition newSession :: UserSession where
  "newSession = \<lparr>Step = 1, SourceURL = [], UTMSource = [], UTMMedium = [], Campaign = [],
     Content = [], Term = []\<rparr>"

text \<open>
  The global \<^verbatim>\<open>sessions\<close> is a map from user ids to pointers to sessions. Updates
  are handled one at a time by the loop of \<^verbatim>\<open>main\<close>, and the only pointer to a session
  is the one in the map, so the map is modelled with the sessions as its values: a
  write through the pointer is an update of the map at the user's key.
\<close>

type_synonym sessions = "int64 \<rightharpoonup> UserSession"

text \<open>
  What the bot sends. The texts are fixed strings of the source; each constructor stands
  for one of them. \<open>FinalMessage\<close> carries the session whose fields the text lists and
  the final URL.
\<close>

datatype outMsg =
    WelcomeMessage
  | UnknownCommand
  | UseBuildHint
  | AskSourceURL
  | InvalidURLFormat
  | AskUTMSource
  | AskUTMMedium
  | AskCampaign
  | AskContent
  | AskUTMTerm
  | URLProcessingError
  | FinalMessage UserSession string
  | Cancelled
  | SessionNotFound
  | CallbackAnswer

type_synonym sent = "(int64 \<times> outMsg) list"

definition startBuildProcess :: "int64 \<Rightarrow> int64 \<Rightarrow> sessions \<Rightarrow> sessions \<times> sent" where
  "startBuildProcess chatID userID ss = (ss(userID \<mapsto> newSession), [(chatID, AskSourceURL)])"

definition cancelSession :: "int64 \<Rightarrow> int64 \<Rightarrow> sessions \<Rightarrow> sessions \<times> sent" where
  "cancelSession chatID userID ss = (ss(userID := None), [(chatID, Cancelled)])"

text \<open>
  Lines 300 to 307 of \<^verbatim>\<open>sendFinalURL\<close>: the four calls of \<^verbatim>\<open>query.Set\<close>, and the
  fifth for a term that is not empty.
\<close>

definition utmValues :: "UserSession \<Rightarrow> Values \<Rightarrow> Values" where
  "utmValues session query0 =
     (let query1 = Values_Set query0 ''utm_source'' (UTMSource session);
          query2 = Values_Set query1 ''utm_medium'' (UTMMedium session);
          query3 = Values_Set query2 ''utm_campaign'' (Campaign session);
          query4 = Values_Set query3 ''utm_content'' (Content session)
      in if Term session \<noteq> [] then Values_Set query4 ''utm_term'' (Term session) else query4)"

text \<open>
  Lines 297 to 310: the parsed source URL after its query has been replaced. Line 311
  then takes \<^verbatim>\<open>parsedURL.String()\<close>.
\<close>

definition setUTMQuery :: "UserSession \<Rightarrow> URL \<Rightarrow> URL" where
  "setUTMQuery session parsedURL =
     parsedURL\<lparr>RawQuery := Values_Encode (utmValues session (URL_Query parsedURL))\<rparr>"

definition finalURL :: "UserSession \<Rightarrow> URL \<Rightarrow> string" where
  "finalURL session parsedURL = URL_String (setUTMQuery session parsedURL)"

definition sendFinalURL :: "int64 \<Rightarrow> int64 \<Rightarrow> UserSession \<Rightarrow> sessions \<Rightarrow> sessions \<times> sent" where
  "sendFinalURL chatID userID session ss =
     (case Parse (SourceURL session) of
        Inl err \<Rightarrow> (ss, [(chatID, URLProcessingError)])
      | Inr parsedURL \<Rightarrow>
          (ss(userID := None), [(chatID, FinalMessage session (finalURL session parsedURL))]))"

text \<open>
  \<^verbatim>\<open>handleUserInput\<close>. \<open>session\<close> is the session the pointer refers to, the one stored
  for \<open>userID\<close>.
\<close>

definition handleUserInput ::
  "int64 \<Rightarrow> int64 \<Rightarrow> string \<Rightarrow> UserSession \<Rightarrow> sessions \<Rightarrow> sessions \<times> sent" where
  "handleUserInput chatID userID text session ss =
     (if Step session = 1 then
        (if \<not> isValidURL text then (ss, [(chatID, InvalidURLFormat)])
         else (ss(userID \<mapsto> session\<lparr>SourceURL := text, Step := 2\<rparr>), [(chatID, AskUTMSource)]))
      else if Step session = 4 then
        (ss(userID \<mapsto> session\<lparr>Campaign := sanitizeUTMValue text, Step := 5\<rparr>),
         [(chatID, AskContent)])
      else if Step session = 5 then
        (ss(userID \<mapsto> session\<lparr>Content := sanitizeUTMValue text, Step := 6\<rparr>),
         [(chatID, AskUTMTerm)])
      else if Step session = 6 then
        (let session' =
               (if text \<noteq> [] \<and> strings_ToLower text \<noteq> ''atla''
                then session\<lparr>Term := sanitizeUTMValue text\<rparr> else session)
         in sendFinalURL chatID userID session' (ss(userID \<mapsto> session')))
      else (ss, []))"

text \<open>An incoming message: \<open>msgCommand\<close> is \<^verbatim>\<open>Command()\<close> when \<^verbatim>\<open>IsCommand()\<close> holds.\<close>

record Message =
  msgFrom :: int64
  msgChat :: int64
  msgText :: string
  msgCommand :: "string option"

record CallbackQuery =
  cbFrom :: int64
  cbChat :: int64
  cbData :: string

definition handleMessage :: "Message \<Rightarrow> sessions \<Rightarrow> sessions \<times> sent" where
  "handleMessage message ss =
     (let userID = msgFrom message; chatID = msgChat message in
      case msgCommand message of
        Some command \<Rightarrow>
          (if command = ''start'' then (ss, [(chatID, WelcomeMessage)])
           else if command = ''build'' then startBuildProcess chatID userID ss
           else if command = ''cancel'' then cancelSession chatID userID ss
           else (ss, [(chatID, UnknownCommand)]))
      | None \<Rightarrow>
          (case ss userID of
             Some session \<Rightarrow> handleUserInput chatID userID (msgText message) session ss
           | None \<Rightarrow> (ss, [(chatID, UseBuildHint)])))"

definition handleCallback :: "CallbackQuery \<Rightarrow> sessions \<Rightarrow> sessions \<times> sent" where
  "handleCallback callback ss =
     (let userID = cbFrom callback; chatID = cbChat callback; data = cbData callback in
      case ss userID of
        None \<Rightarrow> (ss, [(chatID, CallbackAnswer), (chatID, SessionNotFound)])
      | Some session \<Rightarrow>
          (if Step session = 2 then
             (ss(userID \<mapsto> session\<lparr>UTMSource := data, Step := 3\<rparr>),
              [(chatID, CallbackAnswer), (chatID, AskUTMMedium)])
           else if Step session = 3 then
             (ss(userID \<mapsto> session\<lparr>UTMMedium := data, Step := 4\<rparr>),
              [(chatID, CallbackAnswer), (chatID, AskCampaign)])
           else if Step session = 6 then
             (if data = ''skip_term'' then
                (case sendFinalURL chatID userID session ss of
                   (ss', out) \<Rightarrow> (ss', (chatID, CallbackAnswer) # out))
              else (ss, [(chatID, CallbackAnswer)]))
           else (ss, [(chatID, CallbackAnswer)])))"

text \<open>One update of the loop in \<^verbatim>\<open>main\<close>: a callback query, a message, or neither.\<close>

datatype update = UpdateCallback CallbackQuery | UpdateMessage Message | UpdateOther

fun handleUpdate :: "update \<Rightarrow> sessions \<Rightarrow> sessions \<times> sent" where
  "handleUpdate (UpdateCallback callback) ss = handleCallback callback ss"
| "handleUpdate (UpdateMessage message) ss = handleMessage message ss"
| "handleUpdate UpdateOther ss = (ss, [])"

text \<open>The loop over the updates, from a map of sessions: the final map and all that was sent.\<close>

fun runUpdates :: "update list \<Rightarrow> sessions \<Rightarrow> sessions \<times> sent" where
  "runUpdates [] ss = (ss, [])"
| "runUpdates (u # us) ss =
     (case handleUpdate u ss of
        (ss', out) \<Rightarrow> (case runUpdates us ss' of (ss'', out') \<Rightarrow> (ss'', out @ out')))"

text \<open>The states of the session map that the bot can reach from its start, the empty map.\<close>

inductive reachable :: "sessions \<Rightarrow> bool" where
  reachable_init: "reachable Map.empty"
| reachable_step: "reachable ss \<Longrightarrow> reachable (fst (handleUpdate u ss))"

text \<open>The updates of a conversation: a plain text, a command and a button selection.\<close>

definition textMessage :: "int64 \<Rightarrow> int64 \<Rightarrow> string \<Rightarrow> update" where
  "textMessage userID chatID t =
     UpdateMessage \<lparr>msgFrom = userID, msgChat = chatID, msgText = t, msgCommand = None\<rparr>"

definition commandMessage :: "int64 \<Rightarrow> int64 \<Rightarrow> string \<Rightarrow> update" where
  "commandMessage userID chatID command =
     UpdateMessage \<lparr>msgFrom = userID, msgChat = chatID, msgText = CHR ''/'' # command,
       msgCommand = Some command\<rparr>"

definition selection :: "int64 \<Rightarrow> int64 \<Rightarrow> string \<Rightarrow> update" where
  "selection userID chatID d = UpdateCallback \<lparr>cbFrom = userID, cbChat = chatID, cbData = d\<rparr>"


text \<open>
  The conversation of the end-to-end scenario, for a user \<open>u\<close> in a chat \<open>c\<close>.
\<close>

definition scenario :: "int64 \<Rightarrow> int64 \<Rightarrow> update list" where
  "scenario u c =
     [commandMessage u c ''build'',
      textMessage u c ''https://hayratyardim.org/bagis/genel-su-kuyusu/'',
      selection u c ''meta'',
      selection u c ''organic_social'',
      textMessage u c ''Su Kuyusu Genel'',
      textMessage u c ''Test Genel Su Kuyusu'',
      selection u c ''skip_term'']"

text \<open>The steps recorded for a user after each update, until the session is gone.\<close>

fun stepTrace :: "update list \<Rightarrow> sessions \<Rightarrow> int64 \<Rightarrow> int list" where
  "stepTrace [] ss u = []"
| "stepTrace (x # xs) ss u =
     (case fst (handleUpdate x ss) u of
        None \<Rightarrow> []
      | Some s' \<Rightarrow> Step s' # stepTrace xs (fst (handleUpdate x ss)) u)"

text \<open>A \<^verbatim>\<open>/build\<close> command of user \<open>u\<close>: it replaces the session by a new one.\<close>

definition isBuildOf :: "int64 \<Rightarrow> update \<Rightarrow> bool" where
  "isBuildOf u x =
     (case x of
        UpdateMessage m \<Rightarrow> msgFrom m = u \<and> msgCommand m = Some ''build''
      | _ \<Rightarrow> False)"

text \<open>
  The reading of the specification's field invariant: a field is populated if and only
  if its step has been passed. The steps are numbered 1 to 6 as in the source, and the
  step of a field has been passed when \<open>Step\<close> is beyond it.
\<close>

definition populatedIffPassed :: "UserSession \<Rightarrow> bool" where
  "populatedIffPassed s \<longleftrightarrow>
     (SourceURL s \<noteq> []) = (1 < Step s)
     \<and> (UTMSource s \<noteq> []) = (2 < Step s)
     \<and> (UTMMedium s \<noteq> []) = (3 < Step s)
     \<and> (Campaign s \<noteq> []) = (4 < Step s)
     \<and> (Content s \<noteq> []) = (5 < Step s)
     \<and> (Term s \<noteq> []) = (6 < Step s)"

text \<open>What holds of every stored session: the fields by step, as the code fills them.\<close>

definition sessionInv :: "UserSession \<Rightarrow> bool" where
  "sessionInv s \<longleftrightarrow>
     1 \<le> Step s \<and> Step s \<le> 6
     \<and> (if Step s \<le> 1 then SourceURL s = [] else isValidURL (SourceURL s))
     \<and> (Step s \<le> 2 \<longrightarrow> UTMSource s = [])
     \<and> (Step s \<le> 3 \<longrightarrow> UTMMedium s = [])
     \<and> (if Step s \<le> 4 then Campaign s = [] else (\<exists>t. Campaign s = sanitizeUTMValue t))
     \<and> (if Step s \<le> 5 then Content s = [] else (\<exists>t. Content s = sanitizeUTMValue t))
     \<and> Term s = []"

definition allInv :: "sessions \<Rightarrow> bool" where
  "allInv ss \<longleftrightarrow> (\<forall>u s. ss u = Some s \<longrightarrow> sessionInv s)"

text \<open>The text of a message, or the data of a button selection.\<close>

definition payload :: "update \<Rightarrow> string" where
  "payload x =
     (case x of UpdateMessage m \<Rightarrow> msgText m | UpdateCallback cb \<Rightarrow> cbData cb | UpdateOther \<Rightarrow> [])"

text \<open>
  The inputs that have moved the present session of user \<open>u\<close> forward, oldest first, along
  the updates \<open>xs\<close> run from the map \<open>ss\<close>: a \<^verbatim>\<open>/build\<close> of the user empties the list, and
  an update after which the step of the user's session is higher adds its text or data.
\<close>

fun accepted :: "update list \<Rightarrow> sessions \<Rightarrow> int64 \<Rightarrow> string list \<Rightarrow> string list" where
  "accepted [] ss u ins = ins"
| "accepted (x # xs) ss u ins =
     accepted xs (fst (handleUpdate x ss)) u
       (if isBuildOf u x then []
        else
          (case (ss u, fst (handleUpdate x ss) u) of
             (Some s, Some s') \<Rightarrow> if Step s < Step s' then ins @ [payload x] else ins
           | _ \<Rightarrow> ins))"

text \<open>
  The session that a list of accepted inputs stands for: the step is one more than their
  number, the first three are stored as received, the fourth and the fifth sanitized, and
  a field without its input is empty.
\<close>

definition inputAt :: "string list \<Rightarrow> nat \<Rightarrow> string" where
  "inputAt ins k = (if k < length ins then ins ! k else [])"

definition sessionOf :: "string list \<Rightarrow> UserSession" where
  "sessionOf ins =
     \<lparr>Step = 1 + int (length ins),
      SourceURL = inputAt ins 0,
      UTMSource = inputAt ins 1,
      UTMMedium = inputAt ins 2,
      Campaign = (if 3 < length ins then sanitizeUTMValue (ins ! 3) else []),
      Content = (if 4 < length ins then sanitizeUTMValue (ins ! 4) else []),
      Term = []\<rparr>"

definition acceptedInv :: "sessions \<Rightarrow> int64 \<Rightarrow> string list \<Rightarrow> bool" where
  "acceptedInv ss u ins \<longleftrightarrow>
     (\<forall>s. ss u = Some s \<longrightarrow>
        s = sessionOf ins \<and> length ins \<le> 5 \<and> (ins \<noteq> [] \<longrightarrow> isValidURL (hd ins)))"

section \<open>The state machine\<close>

lemma sendFinalURL_valid:
  "isValidURL (SourceURL s) \<Longrightarrow>
   \<exists>p. Parse (SourceURL s) = Inr p
     \<and> sendFinalURL c u s ss = (ss(u := None), [(c, FinalMessage s (finalURL s p))])"
  by (auto simp: isValidURL_def sendFinalURL_def split: sum.splits)

lemma sendFinalURL_other: "v \<noteq> u \<Longrightarrow> fst (sendFinalURL c u s ss) v = ss v"
  by (simp add: sendFinalURL_def split: sum.splits)

lemma handleUserInput_other: "v \<noteq> u \<Longrightarrow> fst (handleUserInput c u t s ss) v = ss v"
  by (simp add: handleUserInput_def Let_def sendFinalURL_other)

lemma handleUserInput_inv:
  assumes "sessionInv s" and "fst (handleUserInput c u t s ss) u = Some s'" and "ss u = Some s"
  shows "sessionInv s' \<and> Step s \<le> Step s'"
proof -
  have "1 \<le> Step s" and "Step s \<le> 6"
    using assms(1) by (simp_all add: sessionInv_def)
  then consider "Step s = 1" | "Step s = 2" | "Step s = 3" | "Step s = 4" | "Step s = 5" | "Step s = 6"
    by atomize_elim arith
  then show ?thesis
  proof cases
    case 6
    define s6 where "s6 = (if t \<noteq> [] \<and> strings_ToLower t \<noteq> ''atla''
                then s\<lparr>Term := sanitizeUTMValue t\<rparr> else s)"
    have "isValidURL (SourceURL s6)"
      using assms(1) 6 by (simp add: sessionInv_def s6_def)
    from sendFinalURL_valid [OF this, of c u "ss(u \<mapsto> s6)"]
    have "fst (handleUserInput c u t s ss) u = None"
      using 6 by (auto simp: handleUserInput_def Let_def s6_def)
    with assms(2) show ?thesis by simp
  qed (use assms in \<open>auto simp: handleUserInput_def sessionInv_def split: if_splits\<close>)
qed

lemma handleCallback_other: "v \<noteq> cbFrom cb \<Longrightarrow> fst (handleCallback cb ss) v = ss v"
  by (auto simp: handleCallback_def Let_def sendFinalURL_other split: option.splits prod.splits)
     (metis fst_conv sendFinalURL_other)

lemma handleCallback_inv:
  assumes "ss (cbFrom cb) = Some s" and "sessionInv s"
    and "fst (handleCallback cb ss) (cbFrom cb) = Some s'"
  shows "sessionInv s' \<and> Step s \<le> Step s'"
proof (cases "Step s = 6 \<and> cbData cb = ''skip_term''")
  case True
  have "isValidURL (SourceURL s)"
    using assms(2) True by (simp add: sessionInv_def)
  from sendFinalURL_valid [OF this, of "cbChat cb" "cbFrom cb" ss]
  have "fst (handleCallback cb ss) (cbFrom cb) = None"
    using True assms(1) by (auto simp: handleCallback_def Let_def)
  with assms(3) show ?thesis by simp
next
  case False
  then show ?thesis
    using assms by (auto simp: handleCallback_def Let_def sessionInv_def split: if_splits)
qed


lemma sessionInv_new: "sessionInv newSession"
  by (simp add: sessionInv_def newSession_def)

lemma handleMessage_step:
  assumes "allInv ss" and "fst (handleMessage m ss) u = Some s'"
  shows "sessionInv s'
    \<and> (\<forall>s. ss u = Some s \<longrightarrow> \<not> (msgFrom m = u \<and> msgCommand m = Some ''build'') \<longrightarrow> Step s \<le> Step s')"
proof (cases "msgCommand m")
  case (Some command)
  then show ?thesis
    using assms
    by (auto simp: handleMessage_def Let_def startBuildProcess_def cancelSession_def allInv_def
        sessionInv_new split: if_splits)
next
  case None
  show ?thesis
  proof (cases "ss (msgFrom m)")
    case N: None
    then show ?thesis
      using None assms by (auto simp: handleMessage_def Let_def allInv_def)
  next
    case (Some s)
    then have eq: "handleMessage m ss = handleUserInput (msgChat m) (msgFrom m) (msgText m) s ss"
      using None by (simp add: handleMessage_def Let_def)
    show ?thesis
    proof (cases "u = msgFrom m")
      case True
      then show ?thesis
        using handleUserInput_inv [of s "msgChat m" "msgFrom m" "msgText m" ss s'] assms Some eq
        by (auto simp: allInv_def)
    next
      case False
      then show ?thesis
        using assms eq handleUserInput_other [of u "msgFrom m" "msgChat m" "msgText m" s ss]
        by (auto simp: allInv_def)
    qed
  qed
qed

lemma handleCallback_step:
  assumes "allInv ss" and "fst (handleCallback cb ss) u = Some s'"
  shows "sessionInv s' \<and> (\<forall>s. ss u = Some s \<longrightarrow> Step s \<le> Step s')"
proof (cases "u = cbFrom cb")
  case False
  then show ?thesis
    using assms handleCallback_other [of u cb ss] by (auto simp: allInv_def)
next
  case True
  show ?thesis
  proof (cases "ss (cbFrom cb)")
    case None
    then show ?thesis
      using assms True by (simp add: handleCallback_def Let_def)
  next
    case (Some s)
    then show ?thesis
      using handleCallback_inv [of ss cb s s'] assms True by (auto simp: allInv_def)
  qed
qed

lemma handleUpdate_step:
  assumes "allInv ss" and "fst (handleUpdate x ss) u = Some s'"
  shows "sessionInv s' \<and> (\<forall>s. ss u = Some s \<longrightarrow> \<not> isBuildOf u x \<longrightarrow> Step s \<le> Step s')"
proof (cases x)
  case (UpdateCallback cb)
  then show ?thesis
    using handleCallback_step [of ss cb u s'] assms by simp
next
  case (UpdateMessage m)
  then show ?thesis
    using handleMessage_step [of ss m u s'] assms by (simp add: isBuildOf_def)
next
  case UpdateOther
  then show ?thesis
    using assms by (auto simp: allInv_def)
qed

lemma handleUpdate_allInv: "allInv ss \<Longrightarrow> allInv (fst (handleUpdate x ss))"
  using handleUpdate_step unfolding allInv_def by blast

lemma reachable_allInv: "reachable ss \<Longrightarrow> allInv ss"
proof (induction rule: reachable.induct)
  case reachable_init
  show ?case by (simp add: allInv_def)
next
  case (reachable_step ss u)
  then show ?case by (simp add: handleUpdate_allInv)
qed

lemma fst_runUpdates_Cons:
  "fst (runUpdates (x # xs) ss) = fst (runUpdates xs (fst (handleUpdate x ss)))"
  by (simp split: prod.splits)

lemma reachable_runUpdates: "reachable ss \<Longrightarrow> reachable (fst (runUpdates us ss))"
proof (induction us arbitrary: ss)
  case Nil
  then show ?case by simp
next
  case (Cons x xs)
  from Cons.prems have "reachable (fst (handleUpdate x ss))"
    by (rule reachable_step)
  from Cons.IH [OF this] show ?case
    by (simp only: fst_runUpdates_Cons)
qed

lemma stepTrace_sorted:
  "allInv ss \<Longrightarrow> ss u = Some s \<Longrightarrow> list_all (\<lambda>x. \<not> isBuildOf u x) xs \<Longrightarrow>
   sorted (Step s # stepTrace xs ss u)"
proof (induction xs arbitrary: ss s)
  case Nil
  then show ?case by simp
next
  case (Cons x xs)
  show ?case
  proof (cases "fst (handleUpdate x ss) u")
    case None
    then show ?thesis by simp
  next
    case (Some s')
    have le: "Step s \<le> Step s'"
      using handleUpdate_step [OF Cons.prems(1) Some] Cons.prems(2,3) by simp
    have "sorted (Step s' # stepTrace xs (fst (handleUpdate x ss)) u)"
      using Cons.IH [OF handleUpdate_allInv [OF Cons.prems(1)] Some] Cons.prems(3) by simp
    with le show ?thesis
      using Some by auto
  qed
qed

section \<open>The end-to-end scenario\<close>

lemma Parse_hayrat:
  "Parse ''https://hayratyardim.org/bagis/genel-su-kuyusu/'' =
     Inr (emptyURL\<lparr>Scheme := ''https'', Host := ''hayratyardim.org'',
            Path := ''/bagis/genel-su-kuyusu/''\<rparr>)"
  by code_simp

lemma isValidURL_hayrat: "isValidURL ''https://hayratyardim.org/bagis/genel-su-kuyusu/''"
  by (simp add: isValidURL_def Parse_hayrat)

lemma sanitize_campaign: "sanitizeUTMValue ''Su Kuyusu Genel'' = ''su_kuyusu_genel''"
  by code_simp

lemma sanitize_content: "sanitizeUTMValue ''Test Genel Su Kuyusu'' = ''test_genel_su_kuyusu''"
  by code_simp

lemma sanitize_kreatif: "sanitizeUTMValue ''Kreatif Ismi'' = ''kreatif_ismi''"
  by code_simp

lemma finalURL_hayrat:
  "finalURL \<lparr>Step = 6, SourceURL = ''https://hayratyardim.org/bagis/genel-su-kuyusu/'',
       UTMSource = ''meta'', UTMMedium = ''organic_social'', Campaign = ''su_kuyusu_genel'',
       Content = ''test_genel_su_kuyusu'', Term = []\<rparr>
     (emptyURL\<lparr>Scheme := ''https'', Host := ''hayratyardim.org'',
        Path := ''/bagis/genel-su-kuyusu/''\<rparr>)
   = ''https://hayratyardim.org/bagis/genel-su-kuyusu/?utm_campaign=su_kuyusu_genel&utm_content=test_genel_su_kuyusu&utm_medium=organic_social&utm_source=meta''"
  by code_simp

text \<open>
  C1 (as amended). The scenario, for any user, chat and session map: the bot answers each
  step and the last message is the final link, with the parameters in the order of
  \<^verbatim>\<open>Values.Encode\<close> (sorted by key) and without \<open>utm_term\<close>; afterwards the user has no
  session.
\<close>

theorem C1_scenario_final_link:
  "runUpdates (scenario u c) ss =
     (ss(u := None),
      [(c, AskSourceURL), (c, AskUTMSource), (c, CallbackAnswer), (c, AskUTMMedium),
       (c, CallbackAnswer), (c, AskCampaign), (c, AskContent), (c, AskUTMTerm),
       (c, CallbackAnswer),
       (c, FinalMessage
             \<lparr>Step = 6, SourceURL = ''https://hayratyardim.org/bagis/genel-su-kuyusu/'',
                UTMSource = ''meta'', UTMMedium = ''organic_social'',
                Campaign = ''su_kuyusu_genel'', Content = ''test_genel_su_kuyusu'', Term = []\<rparr>
             ''https://hayratyardim.org/bagis/genel-su-kuyusu/?utm_campaign=su_kuyusu_genel&utm_content=test_genel_su_kuyusu&utm_medium=organic_social&utm_source=meta'')])"
  by (simp add: scenario_def commandMessage_def textMessage_def selection_def
      handleMessage_def handleCallback_def handleUserInput_def startBuildProcess_def
      sendFinalURL_def newSession_def Let_def isValidURL_hayrat Parse_hayrat
      sanitize_campaign sanitize_content finalURL_hayrat)

text \<open>
  C1 (as stated) fails: no message of the scenario carries the link of the claim, whose
  parameters are in the order source, medium, campaign, content.
\<close>

theorem C1_claimed_link_not_emitted:
  "\<forall>session. (7, FinalMessage session
      ''https://hayratyardim.org/bagis/genel-su-kuyusu/?utm_source=meta&utm_medium=organic_social&utm_campaign=su_kuyusu_genel&utm_content=test_genel_su_kuyusu'')
     \<notin> set (snd (runUpdates (scenario 7 7) Map.empty))"
proof -
  have "snd (runUpdates (scenario 7 7) Map.empty) =
     [(7, AskSourceURL), (7, AskUTMSource), (7, CallbackAnswer), (7, AskUTMMedium),
       (7, CallbackAnswer), (7, AskCampaign), (7, AskContent), (7, AskUTMTerm),
       (7, CallbackAnswer),
       (7, FinalMessage
             \<lparr>Step = 6, SourceURL = ''https://hayratyardim.org/bagis/genel-su-kuyusu/'',
                UTMSource = ''meta'', UTMMedium = ''organic_social'',
                Campaign = ''su_kuyusu_genel'', Content = ''test_genel_su_kuyusu'', Term = []\<rparr>
             ''https://hayratyardim.org/bagis/genel-su-kuyusu/?utm_campaign=su_kuyusu_genel&utm_content=test_genel_su_kuyusu&utm_medium=organic_social&utm_source=meta'')]"
    by code_simp
  then show ?thesis
    by simp
qed

section \<open>Claims on the state machine\<close>

text \<open>
  C8. The start-build command installs a fresh session for the user, at step 1 with every
  field empty, whatever the map of sessions held before: through \<^verbatim>\<open>startBuildProcess\<close>
  and through the command \<^verbatim>\<open>/build\<close> of \<^verbatim>\<open>handleMessage\<close>.
\<close>

theorem C8_build_installs_fresh_session:
  "fst (startBuildProcess chatID userID ss) userID =
     Some \<lparr>Step = 1, SourceURL = [], UTMSource = [], UTMMedium = [], Campaign = [],
            Content = [], Term = []\<rparr>
   \<and> fst (handleMessage \<lparr>msgFrom = userID, msgChat = chatID, msgText = t,
              msgCommand = Some ''build''\<rparr> ss) userID =
     Some \<lparr>Step = 1, SourceURL = [], UTMSource = [], UTMMedium = [], Campaign = [],
            Content = [], Term = []\<rparr>"
  by (simp add: startBuildProcess_def handleMessage_def newSession_def)

text \<open>
  C7. At step 1 a text is accepted if and only if \<^verbatim>\<open>url.Parse\<close> succeeds on it with the
  scheme \<open>http\<close> or \<open>https\<close>. When accepted it is stored as the source URL and the step
  becomes 2; when rejected the map of sessions is unchanged and the only message sent is
  the validation error.
\<close>

theorem C7_source_url_validation:
  assumes "Step session = 1"
  shows "handleUserInput chatID userID t session ss =
     (if (\<exists>p. Parse t = Inr p \<and> (Scheme p = ''http'' \<or> Scheme p = ''https''))
      then (ss(userID \<mapsto> session\<lparr>SourceURL := t, Step := 2\<rparr>), [(chatID, AskUTMSource)])
      else (ss, [(chatID, InvalidURLFormat)]))"
proof -
  have "isValidURL t \<longleftrightarrow> (\<exists>p. Parse t = Inr p \<and> (Scheme p = ''http'' \<or> Scheme p = ''https''))"
    by (cases "Parse t") (simp_all add: isValidURL_def)
  then show ?thesis
    using assms by (simp add: handleUserInput_def)
qed

lemma Parse_ftp: "Parse ''ftp://example.org/p'' =
    Inr (emptyURL\<lparr>Scheme := ''ftp'', Host := ''example.org'', Path := ''/p''\<rparr>)"
  by code_simp

theorem C7_source_url_validation_witness:
  "Step newSession = 1
   \<and> handleUserInput 5 7 ''https://hayratyardim.org/bagis/genel-su-kuyusu/'' newSession Map.empty =
       ([7 \<mapsto> newSession\<lparr>SourceURL := ''https://hayratyardim.org/bagis/genel-su-kuyusu/'',
                            Step := 2\<rparr>], [(5, AskUTMSource)])
   \<and> handleUserInput 5 7 ''ftp://example.org/p'' newSession Map.empty =
       (Map.empty, [(5, InvalidURLFormat)])"
proof -
  have h: "Step newSession = 1"
    by (simp add: newSession_def)
  show ?thesis
    using h
      C7_source_url_validation [OF h, of 5 7 "''https://hayratyardim.org/bagis/genel-su-kuyusu/''" Map.empty]
      C7_source_url_validation [OF h, of 5 7 "''ftp://example.org/p''" Map.empty]
    by (simp add: Parse_hayrat Parse_ftp emptyURL_def)
qed

text \<open>
  C9. From any reachable state in which the user has a session, and for any sequence of
  updates without a \<^verbatim>\<open>/build\<close> of that user (which would replace the session by a new
  one), the steps recorded for the user, from the present one until the session is deleted,
  never decrease.
\<close>

theorem C9_step_never_decreases:
  assumes "reachable ss" and "ss u = Some s" and "list_all (\<lambda>x. \<not> isBuildOf u x) xs"
  shows "sorted (Step s # stepTrace xs ss u)"
  using stepTrace_sorted [OF reachable_allInv [OF assms(1)] assms(2) assms(3)] .

lemma stepTrace_scenario:
  "stepTrace (tl (scenario 7 5)) (fst (runUpdates [hd (scenario 7 5)] Map.empty)) 7 = [2, 3, 4, 5, 6]"
  by code_simp

lemma after_build: "fst (runUpdates [hd (scenario 7 5)] Map.empty) 7 = Some newSession"
  by code_simp

theorem C9_step_never_decreases_witness:
  "reachable (fst (runUpdates [hd (scenario 7 5)] Map.empty))
   \<and> fst (runUpdates [hd (scenario 7 5)] Map.empty) 7 = Some newSession
   \<and> list_all (\<lambda>x. \<not> isBuildOf 7 x) (tl (scenario 7 5))
   \<and> stepTrace (tl (scenario 7 5)) (fst (runUpdates [hd (scenario 7 5)] Map.empty)) 7 = [2, 3, 4, 5, 6]
   \<and> sorted (Step newSession # [2, 3, 4, 5, 6])"
proof -
  have r: "reachable (fst (runUpdates [hd (scenario 7 5)] Map.empty))"
    by (rule reachable_runUpdates [OF reachable_init])
  have n: "list_all (\<lambda>x. \<not> isBuildOf 7 x) (tl (scenario 7 5))"
    by (simp add: scenario_def isBuildOf_def textMessage_def selection_def)
  from C9_step_never_decreases [OF r after_build n] r n show ?thesis
    by (simp only: stepTrace_scenario after_build simp_thms)
qed

text \<open>
  C10. A string that \<^verbatim>\<open>isValidURL\<close> accepts is one that \<^verbatim>\<open>url.Parse\<close> parses, so for a
  session whose source URL it is \<^verbatim>\<open>sendFinalURL\<close> sends the final link and deletes the
  session. In every reachable state a session at step 6 holds such a source URL: a text
  and the skip selection both delete it, and the error message is not sent.
\<close>

theorem C10_finalization_never_fails:
  "(isValidURL src \<longrightarrow>
      (\<exists>p. Parse src = Inr p
         \<and> (\<forall>c u s ss. SourceURL s = src \<longrightarrow>
               sendFinalURL c u s ss = (ss(u := None), [(c, FinalMessage s (finalURL s p))]))))
   \<and> (reachable ss \<longrightarrow> ss u = Some s \<longrightarrow> Step s = 6 \<longrightarrow>
        isValidURL (SourceURL s)
        \<and> fst (handleUserInput c u t s ss) u = None
        \<and> (c, URLProcessingError) \<notin> set (snd (handleUserInput c u t s ss))
        \<and> fst (handleCallback \<lparr>cbFrom = u, cbChat = c, cbData = ''skip_term''\<rparr> ss) u = None
        \<and> (c, URLProcessingError)
             \<notin> set (snd (handleCallback \<lparr>cbFrom = u, cbChat = c, cbData = ''skip_term''\<rparr> ss)))"
proof (intro conjI impI)
  assume "isValidURL src"
  then obtain p where p: "Parse src = Inr p"
    by (cases "Parse src") (simp_all add: isValidURL_def)
  then have "\<forall>c u s ss. SourceURL s = src \<longrightarrow>
               sendFinalURL c u s ss = (ss(u := None), [(c, FinalMessage s (finalURL s p))])"
    by (simp add: sendFinalURL_def)
  with p show "\<exists>p. Parse src = Inr p
         \<and> (\<forall>c u s ss. SourceURL s = src \<longrightarrow>
               sendFinalURL c u s ss = (ss(u := None), [(c, FinalMessage s (finalURL s p))]))"
    by blast
next
  assume r: "reachable ss" and s: "ss u = Some s" and six: "Step s = 6"
  from reachable_allInv [OF r] s have inv: "sessionInv s"
    by (simp add: allInv_def)
  with six show v: "isValidURL (SourceURL s)"
    by (simp add: sessionInv_def)
  define s6 where "s6 = (if t \<noteq> [] \<and> strings_ToLower t \<noteq> ''atla''
                then s\<lparr>Term := sanitizeUTMValue t\<rparr> else s)"
  have v6: "isValidURL (SourceURL s6)"
    using v by (simp add: s6_def)
  have h: "handleUserInput c u t s ss = sendFinalURL c u s6 (ss(u \<mapsto> s6))"
    using six by (simp add: handleUserInput_def Let_def s6_def)
  from sendFinalURL_valid [OF v6, of c u "ss(u \<mapsto> s6)"] h
  show "fst (handleUserInput c u t s ss) u = None"
    and "(c, URLProcessingError) \<notin> set (snd (handleUserInput c u t s ss))"
    by auto
  have k: "handleCallback \<lparr>cbFrom = u, cbChat = c, cbData = ''skip_term''\<rparr> ss =
      (fst (sendFinalURL c u s ss), (c, CallbackAnswer) # snd (sendFinalURL c u s ss))"
    using six s by (simp add: handleCallback_def Let_def split: prod.splits)
  from sendFinalURL_valid [OF v, of c u ss] k
  show "fst (handleCallback \<lparr>cbFrom = u, cbChat = c, cbData = ''skip_term''\<rparr> ss) u = None"
    and "(c, URLProcessingError)
             \<notin> set (snd (handleCallback \<lparr>cbFrom = u, cbChat = c, cbData = ''skip_term''\<rparr> ss))"
    by auto
qed

lemma before_term:
  "fst (runUpdates (butlast (scenario 7 5)) Map.empty) 7 =
     Some \<lparr>Step = 6, SourceURL = ''https://hayratyardim.org/bagis/genel-su-kuyusu/'',
            UTMSource = ''meta'', UTMMedium = ''organic_social'', Campaign = ''su_kuyusu_genel'',
            Content = ''test_genel_su_kuyusu'', Term = []\<rparr>"
  by code_simp

theorem C10_finalization_never_fails_witness:
  "isValidURL ''https://hayratyardim.org/bagis/genel-su-kuyusu/''
   \<and> reachable (fst (runUpdates (butlast (scenario 7 5)) Map.empty))
   \<and> fst (handleCallback \<lparr>cbFrom = 7, cbChat = 5, cbData = ''skip_term''\<rparr>
            (fst (runUpdates (butlast (scenario 7 5)) Map.empty))) 7 = None
   \<and> fst (handleUserInput 5 7 ''reklam seti''
            \<lparr>Step = 6, SourceURL = ''https://hayratyardim.org/bagis/genel-su-kuyusu/'',
              UTMSource = ''meta'', UTMMedium = ''organic_social'', Campaign = ''su_kuyusu_genel'',
              Content = ''test_genel_su_kuyusu'', Term = []\<rparr>
            (fst (runUpdates (butlast (scenario 7 5)) Map.empty))) 7 = None"
proof -
  have r: "reachable (fst (runUpdates (butlast (scenario 7 5)) Map.empty))"
    by (rule reachable_runUpdates [OF reachable_init])
  from C10_finalization_never_fails
    [of "''https://hayratyardim.org/bagis/genel-su-kuyusu/''"
        "fst (runUpdates (butlast (scenario 7 5)) Map.empty)" 7 _ 5 "''reklam seti''"]
    r before_term isValidURL_hayrat
  show ?thesis
    by simp
qed

lemma sessionOf_Nil: "sessionOf [] = newSession"
  by (simp add: sessionOf_def newSession_def inputAt_def)

lemma short_list_cases:
  assumes "length (ins :: string list) \<le> 5"
  obtains "ins = []" | a where "ins = [a]" | a b where "ins = [a, b]"
  | a b c where "ins = [a, b, c]" | a b c d where "ins = [a, b, c, d]"
  | a b c d e where "ins = [a, b, c, d, e]"
proof -
  from assms have "length ins = 0 \<or> length ins = 1 \<or> length ins = 2 \<or> length ins = 3
      \<or> length ins = 4 \<or> length ins = 5"
    by arith
  then show ?thesis
    using that
    by (elim disjE) (auto simp: length_Suc_conv eval_nat_numeral)
qed

lemma handleUserInput_accepted:
  assumes "length ins \<le> 5" and "ins \<noteq> [] \<longrightarrow> isValidURL (hd ins)"
    and "fst (handleUserInput ch u t (sessionOf ins) ss) u = Some s'" and "ss u = Some (sessionOf ins)"
  shows "if Step (sessionOf ins) < Step s'
         then s' = sessionOf (ins @ [t]) \<and> length ins < 5 \<and> (ins = [] \<longrightarrow> isValidURL t)
         else s' = sessionOf ins"
  using assms(1)
proof (cases rule: short_list_cases)
  case 1
  then show ?thesis
    using assms(3,4)
    by (auto simp: handleUserInput_def sessionOf_def inputAt_def split: if_splits)
next
  case (2 a)
  then show ?thesis
    using assms(3,4)
    by (auto simp: handleUserInput_def sessionOf_def inputAt_def split: if_splits)
next
  case (3 a b)
  then show ?thesis
    using assms(3,4)
    by (auto simp: handleUserInput_def sessionOf_def inputAt_def split: if_splits)
next
  case (4 a b c)
  then show ?thesis
    using assms(3,4)
    by (auto simp: handleUserInput_def sessionOf_def inputAt_def split: if_splits)
next
  case (5 a b c d)
  then show ?thesis
    using assms(3,4)
    by (auto simp: handleUserInput_def sessionOf_def inputAt_def split: if_splits)
next
  case (6 a b c d e)
  define s6 where "s6 = (if t \<noteq> [] \<and> strings_ToLower t \<noteq> ''atla''
                then (sessionOf ins)\<lparr>Term := sanitizeUTMValue t\<rparr> else sessionOf ins)"
  have "isValidURL (SourceURL s6)"
    using assms(2) 6 by (simp add: s6_def sessionOf_def inputAt_def)
  from sendFinalURL_valid [OF this, of ch u "ss(u \<mapsto> s6)"]
  have "fst (handleUserInput ch u t (sessionOf ins) ss) u = None"
    using 6 by (auto simp: handleUserInput_def Let_def s6_def sessionOf_def)
  with assms(3) show ?thesis
    by simp
qed

lemma handleCallback_accepted:
  assumes "length ins \<le> 5" and "ins \<noteq> [] \<longrightarrow> isValidURL (hd ins)"
    and "fst (handleCallback cb ss) (cbFrom cb) = Some s'" and "ss (cbFrom cb) = Some (sessionOf ins)"
  shows "if Step (sessionOf ins) < Step s'
         then s' = sessionOf (ins @ [cbData cb]) \<and> length ins < 5 \<and> ins \<noteq> []
         else s' = sessionOf ins"
  using assms(1)
proof (cases rule: short_list_cases)
  case 1
  then show ?thesis
    using assms(3,4)
    by (auto simp: handleCallback_def Let_def sessionOf_def inputAt_def split: if_splits)
next
  case (2 a)
  then show ?thesis
    using assms(3,4)
    by (auto simp: handleCallback_def Let_def sessionOf_def inputAt_def split: if_splits)
next
  case (3 a b)
  then show ?thesis
    using assms(3,4)
    by (auto simp: handleCallback_def Let_def sessionOf_def inputAt_def split: if_splits)
next
  case (4 a b c)
  then show ?thesis
    using assms(3,4)
    by (auto simp: handleCallback_def Let_def sessionOf_def inputAt_def split: if_splits)
next
  case (5 a b c d)
  then show ?thesis
    using assms(3,4)
    by (auto simp: handleCallback_def Let_def sessionOf_def inputAt_def split: if_splits)
next
  case (6 a b c d e)
  show ?thesis
  proof (cases "cbData cb = ''skip_term''")
    case True
    have "isValidURL (SourceURL (sessionOf ins))"
      using assms(2) 6 by (simp add: sessionOf_def inputAt_def)
    from sendFinalURL_valid [OF this, of "cbChat cb" "cbFrom cb" ss]
    have "fst (handleCallback cb ss) (cbFrom cb) = None"
      using True assms(4) 6 by (auto simp: handleCallback_def Let_def sessionOf_def)
    with assms(3) show ?thesis
      by simp
  next
    case False
    then show ?thesis
      using assms(3,4) 6
      by (auto simp: handleCallback_def Let_def sessionOf_def inputAt_def split: if_splits)
  qed
qed


lemma acceptedInv_unchanged:
  assumes "acceptedInv ss u ins" and "ss' u = ss u"
  shows "acceptedInv ss' u
     (case (ss u, ss' u) of
        (Some s, Some s') \<Rightarrow> if Step s < Step s' then ins @ [p] else ins
      | _ \<Rightarrow> ins)"
  using assms by (cases "ss u") (simp_all add: acceptedInv_def)

lemma acceptedInv_message:
  assumes "acceptedInv ss u ins" and "\<not> isBuildOf u (UpdateMessage m)"
  shows "acceptedInv (fst (handleMessage m ss)) u
     (case (ss u, fst (handleMessage m ss) u) of
        (Some s, Some s') \<Rightarrow> if Step s < Step s' then ins @ [msgText m] else ins
      | _ \<Rightarrow> ins)"
proof (cases "msgCommand m")
  case (Some command)
  show ?thesis
  proof (cases "msgFrom m = u \<and> command = ''cancel''")
    case True
    then have "fst (handleMessage m ss) u = None"
      using Some by (simp add: handleMessage_def Let_def cancelSession_def)
    then show ?thesis
      by (simp add: acceptedInv_def)
  next
    case False
    then have "fst (handleMessage m ss) u = ss u"
      using Some assms(2)
      by (auto simp: handleMessage_def Let_def startBuildProcess_def cancelSession_def
          isBuildOf_def)
    then show ?thesis
      by (rule acceptedInv_unchanged [OF assms(1)])
  qed
next
  case None
  show ?thesis
  proof (cases "ss (msgFrom m)")
    case N: None
    then have "fst (handleMessage m ss) u = ss u"
      using None by (simp add: handleMessage_def)
    then show ?thesis
      by (rule acceptedInv_unchanged [OF assms(1)])
  next
    case (Some s0)
    then have eq: "handleMessage m ss = handleUserInput (msgChat m) (msgFrom m) (msgText m) s0 ss"
      using None by (simp add: handleMessage_def Let_def)
    show ?thesis
    proof (cases "u = msgFrom m")
      case False
      then have "fst (handleMessage m ss) u = ss u"
        unfolding eq by (rule handleUserInput_other)
      then show ?thesis
        by (rule acceptedInv_unchanged [OF assms(1)])
    next
      case True
      with Some assms(1) have inv: "s0 = sessionOf ins" "length ins \<le> 5"
        "ins \<noteq> [] \<longrightarrow> isValidURL (hd ins)"
        by (simp_all add: acceptedInv_def)
      show ?thesis
      proof (cases "fst (handleMessage m ss) u")
        case N2: None
        then show ?thesis
          by (simp add: acceptedInv_def)
      next
        case S2: (Some s')
        from S2 have "fst (handleUserInput (msgChat m) u (msgText m) (sessionOf ins) ss) u = Some s'"
          using eq True inv(1) by simp
        from handleUserInput_accepted [OF inv(2,3) this] Some True inv(1)
        have "if Step (sessionOf ins) < Step s'
          then s' = sessionOf (ins @ [msgText m]) \<and> length ins < 5 \<and> (ins = [] \<longrightarrow> isValidURL (msgText m))
          else s' = sessionOf ins"
          by simp
        then show ?thesis
          using S2 Some True inv by (cases ins) (auto simp: acceptedInv_def)
      qed
    qed
  qed
qed

lemma acceptedInv_callback:
  assumes "acceptedInv ss u ins"
  shows "acceptedInv (fst (handleCallback cb ss)) u
     (case (ss u, fst (handleCallback cb ss) u) of
        (Some s, Some s') \<Rightarrow> if Step s < Step s' then ins @ [cbData cb] else ins
      | _ \<Rightarrow> ins)"
proof (cases "u = cbFrom cb")
  case False
  then have "fst (handleCallback cb ss) u = ss u"
    by (rule handleCallback_other)
  then show ?thesis
    by (rule acceptedInv_unchanged [OF assms(1)])
next
  case True
  show ?thesis
  proof (cases "ss u")
    case None
    then have "fst (handleCallback cb ss) u = ss u"
      using True by (simp add: handleCallback_def Let_def)
    then show ?thesis
      by (rule acceptedInv_unchanged [OF assms(1)])
  next
    case (Some s0)
    with assms(1) have inv: "s0 = sessionOf ins" "length ins \<le> 5"
      "ins \<noteq> [] \<longrightarrow> isValidURL (hd ins)"
      by (simp_all add: acceptedInv_def)
    show ?thesis
    proof (cases "fst (handleCallback cb ss) u")
      case N2: None
      then show ?thesis
        by (simp add: acceptedInv_def)
    next
      case S2: (Some s')
      from handleCallback_accepted [OF inv(2,3), of cb ss s'] S2 Some True inv(1)
      have "if Step (sessionOf ins) < Step s'
         then s' = sessionOf (ins @ [cbData cb]) \<and> length ins < 5 \<and> ins \<noteq> []
         else s' = sessionOf ins"
        by simp
      then show ?thesis
        using S2 Some True inv by (cases ins) (auto simp: acceptedInv_def)
    qed
  qed
qed

lemma acceptedInv_step:
  assumes "acceptedInv ss u ins"
  shows "acceptedInv (fst (handleUpdate x ss)) u
     (if isBuildOf u x then []
      else
        (case (ss u, fst (handleUpdate x ss) u) of
           (Some s, Some s') \<Rightarrow> if Step s < Step s' then ins @ [payload x] else ins
         | _ \<Rightarrow> ins))"
proof (cases "isBuildOf u x")
  case True
  then obtain m where "x = UpdateMessage m" "msgFrom m = u" "msgCommand m = Some ''build''"
    by (cases x) (auto simp: isBuildOf_def)
  then have "fst (handleUpdate x ss) u = Some newSession"
    by (simp add: handleMessage_def startBuildProcess_def)
  then show ?thesis
    using True by (simp add: acceptedInv_def sessionOf_Nil)
next
  case False
  show ?thesis
  proof (cases x)
    case (UpdateCallback cb)
    have p: "payload (UpdateCallback cb) = cbData cb" "isBuildOf u (UpdateCallback cb) = False"
      by (simp_all add: payload_def isBuildOf_def)
    show ?thesis
      unfolding UpdateCallback p handleUpdate.simps if_False
      by (rule acceptedInv_callback [OF assms])
  next
    case (UpdateMessage m)
    have p: "payload (UpdateMessage m) = msgText m"
      by (simp add: payload_def)
    from False have nb: "isBuildOf u (UpdateMessage m) = False"
      by (simp add: UpdateMessage)
    show ?thesis
      unfolding UpdateMessage p nb handleUpdate.simps if_False
      by (rule acceptedInv_message [OF assms]) (simp add: nb)
  next
    case UpdateOther
    have nb: "isBuildOf u UpdateOther = False"
      by (simp add: isBuildOf_def)
    show ?thesis
      unfolding UpdateOther nb handleUpdate.simps if_False fst_conv
      by (rule acceptedInv_unchanged [OF assms]) simp
  qed
qed

lemma acceptedInv_runUpdates:
  "acceptedInv ss u ins \<Longrightarrow> acceptedInv (fst (runUpdates xs ss)) u (accepted xs ss u ins)"
proof (induction xs arbitrary: ss ins)
  case Nil
  then show ?case by simp
next
  case (Cons x xs)
  from Cons.IH [OF acceptedInv_step [OF Cons.prems, of x]] show ?case
    by (simp only: fst_runUpdates_Cons accepted.simps)
qed

lemma runUpdates_snoc:
  "fst (runUpdates (xs @ [x]) ss) = fst (handleUpdate x (fst (runUpdates xs ss)))"
proof (induction xs arbitrary: ss)
  case Nil
  then show ?case by (simp split: prod.splits)
next
  case (Cons y ys)
  then show ?case by (simp only: append_Cons fst_runUpdates_Cons)
qed

lemma reachable_iff_runUpdates: "reachable ss \<longleftrightarrow> (\<exists>xs. ss = fst (runUpdates xs Map.empty))"
proof
  assume "reachable ss"
  then show "\<exists>xs. ss = fst (runUpdates xs Map.empty)"
  proof (induction rule: reachable.induct)
    case reachable_init
    have "Map.empty = fst (runUpdates [] (Map.empty :: sessions))"
      by simp
    then show ?case by blast
  next
    case (reachable_step ss x)
    then obtain xs where "ss = fst (runUpdates xs Map.empty)"
      by blast
    then have "fst (handleUpdate x ss) = fst (runUpdates (xs @ [x]) Map.empty)"
      by (simp only: runUpdates_snoc)
    then show ?case by blast
  qed
next
  assume "\<exists>xs. ss = fst (runUpdates xs Map.empty)"
  then show "reachable ss"
    using reachable_runUpdates [OF reachable_init] by blast
qed

text \<open>
  C6 (as amended). After any sequence of updates, a stored session is the one its accepted
  inputs stand for. Its step is one more than the number of inputs accepted since its
  \<^verbatim>\<open>/build\<close>, at most 6. The field of a step not yet passed is empty. The field of a step
  that has been passed holds the input accepted at that step: the source URL is the text
  received at step 1, a valid URL and so not empty; the source and the medium are the data
  of the selections received at steps 2 and 3, as they came; the campaign and the content are
  the sanitized texts received at steps 4 and 5; each of these four is empty when what was
  received or its sanitized form is empty. The term of a stored session is empty.
\<close>

theorem C6_fields_by_step:
  assumes "fst (runUpdates xs Map.empty) u = Some s"
  shows "(let ins = accepted xs Map.empty u [] in
       s = sessionOf ins \<and> Step s = 1 + int (length ins) \<and> 1 \<le> Step s \<and> Step s \<le> 6
     \<and> (if 1 < Step s then SourceURL s = ins ! 0 \<and> isValidURL (SourceURL s) \<and> SourceURL s \<noteq> []
        else SourceURL s = [])
     \<and> (if 2 < Step s then UTMSource s = ins ! 1 else UTMSource s = [])
     \<and> (if 3 < Step s then UTMMedium s = ins ! 2 else UTMMedium s = [])
     \<and> (if 4 < Step s then Campaign s = sanitizeUTMValue (ins ! 3) else Campaign s = [])
     \<and> (if 5 < Step s then Content s = sanitizeUTMValue (ins ! 4) else Content s = [])
     \<and> Term s = [])"
proof -
  define ins where "ins = accepted xs Map.empty u []"
  have "acceptedInv Map.empty u []"
    by (simp add: acceptedInv_def)
  from acceptedInv_runUpdates [OF this, of xs] assms
  have s: "s = sessionOf ins" and len: "length ins \<le> 5" and v: "ins \<noteq> [] \<longrightarrow> isValidURL (hd ins)"
    by (simp_all add: acceptedInv_def ins_def)
  have e: "\<not> isValidURL []"
    by code_simp
  have main: "s = sessionOf ins \<and> Step s = 1 + int (length ins) \<and> 1 \<le> Step s \<and> Step s \<le> 6
     \<and> (if 1 < Step s then SourceURL s = ins ! 0 \<and> isValidURL (SourceURL s) \<and> SourceURL s \<noteq> []
        else SourceURL s = [])
     \<and> (if 2 < Step s then UTMSource s = ins ! 1 else UTMSource s = [])
     \<and> (if 3 < Step s then UTMMedium s = ins ! 2 else UTMMedium s = [])
     \<and> (if 4 < Step s then Campaign s = sanitizeUTMValue (ins ! 3) else Campaign s = [])
     \<and> (if 5 < Step s then Content s = sanitizeUTMValue (ins ! 4) else Content s = [])
     \<and> Term s = []"
    using len
  proof (cases rule: short_list_cases)
    case 1
    then show ?thesis using s by (simp add: sessionOf_def inputAt_def)
  next
    case (2 a)
    then show ?thesis using s v e by (auto simp: sessionOf_def inputAt_def)
  next
    case (3 a b)
    then show ?thesis using s v e by (auto simp: sessionOf_def inputAt_def)
  next
    case (4 a b c)
    then show ?thesis using s v e by (auto simp: sessionOf_def inputAt_def)
  next
    case (5 a b c d)
    then show ?thesis using s v e by (auto simp: sessionOf_def inputAt_def)
  next
    case (6 a b c d e)
    then show ?thesis using s v \<open>\<not> isValidURL []\<close> by (auto simp: sessionOf_def inputAt_def)
  qed
  show ?thesis
    unfolding Let_def ins_def [symmetric] by (rule main)
qed

lemma accepted_scenario:
  "accepted (butlast (scenario 7 5)) Map.empty 7 [] =
     [''https://hayratyardim.org/bagis/genel-su-kuyusu/'', ''meta'', ''organic_social'',
      ''Su Kuyusu Genel'', ''Test Genel Su Kuyusu'']"
  by code_simp

theorem C6_fields_by_step_witness:
  "fst (runUpdates (butlast (scenario 7 5)) Map.empty) 7 =
       Some \<lparr>Step = 6, SourceURL = ''https://hayratyardim.org/bagis/genel-su-kuyusu/'',
            UTMSource = ''meta'', UTMMedium = ''organic_social'', Campaign = ''su_kuyusu_genel'',
            Content = ''test_genel_su_kuyusu'', Term = []\<rparr>
   \<and> accepted (butlast (scenario 7 5)) Map.empty 7 [] =
       [''https://hayratyardim.org/bagis/genel-su-kuyusu/'', ''meta'', ''organic_social'',
        ''Su Kuyusu Genel'', ''Test Genel Su Kuyusu'']
   \<and> isValidURL ''https://hayratyardim.org/bagis/genel-su-kuyusu/''
   \<and> ''su_kuyusu_genel'' = sanitizeUTMValue ''Su Kuyusu Genel''
   \<and> ''test_genel_su_kuyusu'' = sanitizeUTMValue ''Test Genel Su Kuyusu''"
  using C6_fields_by_step [OF before_term] before_term
  by (simp add: accepted_scenario Let_def)

text \<open>
  C6 (as stated) fails. A message without text (a photo, say) at the campaign step stores
  the empty campaign and moves on to step 5: the step has been passed and the field is not
  populated.
\<close>

theorem C6_passed_field_may_be_empty:
  "\<not> (\<forall>ss u s. reachable ss \<longrightarrow> ss u = Some s \<longrightarrow> populatedIffPassed s)"
proof
  assume a: "\<forall>ss u s. reachable ss \<longrightarrow> ss u = Some s \<longrightarrow> populatedIffPassed s"
  define ss where "ss = fst (runUpdates (take 4 (scenario 7 5) @ [textMessage 7 5 []]) Map.empty)"
  have r: "reachable ss"
    unfolding ss_def by (rule reachable_runUpdates [OF reachable_init])
  have s: "ss 7 = Some \<lparr>Step = 5, SourceURL = ''https://hayratyardim.org/bagis/genel-su-kuyusu/'',
            UTMSource = ''meta'', UTMMedium = ''organic_social'', Campaign = [],
            Content = [], Term = []\<rparr>"
    unfolding ss_def by code_simp
  from a r s have "populatedIffPassed \<lparr>Step = 5,
            SourceURL = ''https://hayratyardim.org/bagis/genel-su-kuyusu/'',
            UTMSource = ''meta'', UTMMedium = ''organic_social'', Campaign = [],
            Content = [], Term = []\<rparr>"
    by blast
  then show False
    by (simp add: populatedIffPassed_def)
qed

section \<open>Escaping and unescaping\<close>








section \<open>Encoding and parsing a query\<close>










subsection \<open>The bytes of an escaped query component\<close>










lemma parseQuery_empty: "parseQuery m [] err = (m, err)"
  by (subst parseQuery.simps) simp


subsection \<open>The values of a key\<close>















section \<open>The assembled link\<close>





lemma Parse_example_plain:
  "Parse ''https://example.org/p'' =
     Inr (emptyURL\<lparr>Scheme := ''https'', Host := ''example.org'', Path := ''/p''\<rparr>)"
  by code_simp

lemma Encode_four:
  "Values_Encode (utmValues \<lparr>Step = k, SourceURL = src, UTMSource = ''google'', UTMMedium = ''cpc'',
       Campaign = ''su_kuyusu_genel'', Content = ''kreatif_ismi'', Term = []\<rparr> [])
   = ''utm_campaign=su_kuyusu_genel&utm_content=kreatif_ismi&utm_medium=cpc&utm_source=google''"
proof -
  have "Values_Encode [(''utm_source'', [''google'']), (''utm_medium'', [''cpc'']),
      (''utm_campaign'', [''su_kuyusu_genel'']), (''utm_content'', [''kreatif_ismi''])]
    = ''utm_campaign=su_kuyusu_genel&utm_content=kreatif_ismi&utm_medium=cpc&utm_source=google''"
    by code_simp
  then show ?thesis
    by (simp add: utmValues_def Values_Set_def)
qed

lemma ParseQuery_four:
  "ParseQuery ''utm_campaign=su_kuyusu_genel&utm_content=kreatif_ismi&utm_medium=cpc&utm_source=google''
   = ([(''utm_campaign'', [''su_kuyusu_genel'']), (''utm_content'', [''kreatif_ismi'']),
       (''utm_medium'', [''cpc'']), (''utm_source'', [''google''])], None)"
  by code_simp

text \<open>
  C3. For a source URL that parses with an empty query, and the fields source \<open>google\<close>,
  medium \<open>cpc\<close>, campaign \<open>Su Kuyusu Genel\<close> and content \<open>Kreatif Ismi\<close> (sanitized as at
  steps 4 and 5) and an empty term, the query of the assembled URL is the four parameters
  \<open>utm_campaign\<close>, \<open>utm_content\<close>, \<open>utm_medium\<close>, \<open>utm_source\<close> with the values
  \<open>su_kuyusu_genel\<close>, \<open>kreatif_ismi\<close>, \<open>cpc\<close>, \<open>google\<close>, and nothing else: no
  \<open>utm_term\<close> and no other key.
\<close>

theorem C3_assembly_four_parameters:
  assumes "Parse src = Inr parsedURL" and "RawQuery parsedURL = []"
  shows "RawQuery (setUTMQuery
            \<lparr>Step = k, SourceURL = src, UTMSource = ''google'', UTMMedium = ''cpc'',
               Campaign = sanitizeUTMValue ''Su Kuyusu Genel'',
               Content = sanitizeUTMValue ''Kreatif Ismi'', Term = []\<rparr> parsedURL)
          = ''utm_campaign=su_kuyusu_genel&utm_content=kreatif_ismi&utm_medium=cpc&utm_source=google''
    \<and> URL_Query (setUTMQuery
            \<lparr>Step = k, SourceURL = src, UTMSource = ''google'', UTMMedium = ''cpc'',
               Campaign = sanitizeUTMValue ''Su Kuyusu Genel'',
               Content = sanitizeUTMValue ''Kreatif Ismi'', Term = []\<rparr> parsedURL)
          = [(''utm_campaign'', [''su_kuyusu_genel'']), (''utm_content'', [''kreatif_ismi'']),
             (''utm_medium'', [''cpc'']), (''utm_source'', [''google''])]"
proof -
  have "URL_Query parsedURL = []"
    using assms(2) by (simp add: URL_Query_def ParseQuery_def parseQuery_empty)
  then have "RawQuery (setUTMQuery
            \<lparr>Step = k, SourceURL = src, UTMSource = ''google'', UTMMedium = ''cpc'',
               Campaign = sanitizeUTMValue ''Su Kuyusu Genel'',
               Content = sanitizeUTMValue ''Kreatif Ismi'', Term = []\<rparr> parsedURL)
          = ''utm_campaign=su_kuyusu_genel&utm_content=kreatif_ismi&utm_medium=cpc&utm_source=google''"
    by (simp add: setUTMQuery_def sanitize_campaign sanitize_kreatif Encode_four)
  then show ?thesis
    by (simp add: URL_Query_def ParseQuery_four)
qed

lemma finalURL_example_plain:
  "finalURL \<lparr>Step = 6, SourceURL = ''https://example.org/p'', UTMSource = ''google'',
       UTMMedium = ''cpc'', Campaign = ''su_kuyusu_genel'', Content = ''kreatif_ismi'', Term = []\<rparr>
     (emptyURL\<lparr>Scheme := ''https'', Host := ''example.org'', Path := ''/p''\<rparr>)
   = ''https://example.org/p?utm_campaign=su_kuyusu_genel&utm_content=kreatif_ismi&utm_medium=cpc&utm_source=google''"
  by code_simp

theorem C3_assembly_four_parameters_witness:
  "Parse ''https://example.org/p'' =
     Inr (emptyURL\<lparr>Scheme := ''https'', Host := ''example.org'', Path := ''/p''\<rparr>)
   \<and> RawQuery (emptyURL\<lparr>Scheme := ''https'', Host := ''example.org'', Path := ''/p''\<rparr>) = []
   \<and> URL_Query (setUTMQuery
        \<lparr>Step = 6, SourceURL = ''https://example.org/p'', UTMSource = ''google'',
           UTMMedium = ''cpc'', Campaign = sanitizeUTMValue ''Su Kuyusu Genel'',
           Content = sanitizeUTMValue ''Kreatif Ismi'', Term = []\<rparr>
        (emptyURL\<lparr>Scheme := ''https'', Host := ''example.org'', Path := ''/p''\<rparr>))
      = [(''utm_campaign'', [''su_kuyusu_genel'']), (''utm_content'', [''kreatif_ismi'']),
         (''utm_medium'', [''cpc'']), (''utm_source'', [''google''])]
   \<and> finalURL \<lparr>Step = 6, SourceURL = ''https://example.org/p'', UTMSource = ''google'',
        UTMMedium = ''cpc'', Campaign = ''su_kuyusu_genel'', Content = ''kreatif_ismi'', Term = []\<rparr>
      (emptyURL\<lparr>Scheme := ''https'', Host := ''example.org'', Path := ''/p''\<rparr>)
      = ''https://example.org/p?utm_campaign=su_kuyusu_genel&utm_content=kreatif_ismi&utm_medium=cpc&utm_source=google''"
proof -
  have q: "RawQuery (emptyURL\<lparr>Scheme := ''https'', Host := ''example.org'', Path := ''/p''\<rparr>) = []"
    by (simp add: emptyURL_def)
  from C3_assembly_four_parameters [OF Parse_example_plain q, of 6] q
  show ?thesis
    by (simp add: Parse_example_plain finalURL_example_plain)
qed




section \<open>Parsing an assembled link again\<close>


lemma unescape_host_plain:
  "list_all (\<lambda>c. c \<noteq> CHR ''%'' \<and> c \<noteq> CHR ''+'' \<and> \<not> shouldEscape c encodeHost) h \<Longrightarrow>
   unescape h encodeHost = Inr h"
  by (induction h) simp_all















subsection \<open>The fields that \<^verbatim>\<open>setPath\<close> and \<^verbatim>\<open>setFragment\<close> leave alone\<close>





subsection \<open>The escaped path and fragment\<close>









subsection \<open>The scheme, and parsing twice\<close>












section \<open>The authority of an assembled link\<close>










subsection \<open>The userinfo\<close>






subsection \<open>A host that is written as it is\<close>











section \<open>The forms of a parsed URL with a scheme\<close>
















section \<open>The string of a URL with a scheme and a query\<close>








section \<open>Parsing the string again\<close>




















text \<open>
  Without the userinfo and the host of the source the link may change when it is assembled
  again: the link of \<open>http:/%2Fa@b@h/ x\<close> is \<open>http://a@b@h/%20x?...\<close>, which parses with the
  user \<open>a@b\<close>, and its own link is \<open>http://a%40b@h/%20x?...\<close>.
\<close>

lemma reassembly_may_differ:
  "Parse ''http:/%2Fa@b@h/ x'' =
     Inr (emptyURL\<lparr>Scheme := ''http'', Path := ''//a@b@h/ x'', RawPath := ''/%2Fa@b@h/ x'',
            OmitHost := True\<rparr>)
   \<and> finalURL \<lparr>Step = 6, SourceURL = ''http:/%2Fa@b@h/ x'', UTMSource = ''google'',
          UTMMedium = ''cpc'', Campaign = ''c'', Content = ''d'', Term = []\<rparr>
        (emptyURL\<lparr>Scheme := ''http'', Path := ''//a@b@h/ x'', RawPath := ''/%2Fa@b@h/ x'',
            OmitHost := True\<rparr>)
       = ''http://a@b@h/%20x?utm_campaign=c&utm_content=d&utm_medium=cpc&utm_source=google''
   \<and> (case Parse ''http://a@b@h/%20x?utm_campaign=c&utm_content=d&utm_medium=cpc&utm_source=google'' of
         Inl e \<Rightarrow> []
       | Inr parsedAgain \<Rightarrow>
           finalURL \<lparr>Step = 6, SourceURL = ''http:/%2Fa@b@h/ x'', UTMSource = ''google'',
             UTMMedium = ''cpc'', Campaign = ''c'', Content = ''d'', Term = []\<rparr> parsedAgain)
       = ''http://a%40b@h/%20x?utm_campaign=c&utm_content=d&utm_medium=cpc&utm_source=google''"
  by code_simp







end
